theory Spec2Isabelle
  imports Main "HOL-Library.Word"
begin

section \<open>Values of the client\<close>

text \<open>
  Python's integers are unbounded and are modelled by \<open>int\<close>; a \<open>bytes\<close> object is a list
  of 8-bit words. Every exception class that the client raises itself, or that the
  standard library raises under it, is a constructor of \<open>exn\<close>; all of them are
  subclasses of Python's \<open>Exception\<close>. The three classes that the client raises
  itself carry their message.
\<close>

type_synonym byte = "8 word"
type_synonym bytes = "byte list"

datatype exn =
    StructError
  | ValueError
  | ZeroDivisionError
  | ConnectionError string
  | ConnectionRefusedError
  | ConnectionResetError
  | BrokenPipeError
  | TimeoutError
  | FileExistsError string
  | FileNotFoundError string
  | IsADirectoryError
  | PermissionError
  | OSError

section \<open>Framing codec: \<open>struct.pack\<close> and \<open>struct.unpack\<close>\<close>

text \<open>
  The formats used by the client are \<open>!B\<close>, \<open>!I\<close>, \<open>!?\<close> and their concatenations
  \<open>!BI\<close> and \<open>!?I\<close>. With \<open>!\<close> there is no padding and integers are big-endian.
  \<open>struct.pack\<close> raises \<open>struct.error\<close> for a value outside the range of its format, and
  \<open>struct.unpack\<close> raises it for a buffer whose length is not the size of the format.
\<close>

definition pack_B :: "int \<Rightarrow> exn + bytes" where
  "pack_B v = (if 0 \<le> v \<and> v \<le> 255 then Inr [word_of_int v] else Inl StructError)"

definition pack_I :: "int \<Rightarrow> exn + bytes" where
  "pack_I v =
     (if 0 \<le> v \<and> v < 2 ^ 32
      then Inr [word_of_int (v div 2 ^ 24 mod 256), word_of_int (v div 2 ^ 16 mod 256),
                word_of_int (v div 2 ^ 8 mod 256), word_of_int (v mod 256)]
      else Inl StructError)"

definition pack_BI :: "int \<Rightarrow> int \<Rightarrow> exn + bytes" where
  "pack_BI command data_length =
     (case pack_B command of
        Inl e \<Rightarrow> Inl e
      | Inr c \<Rightarrow> (case pack_I data_length of Inl e \<Rightarrow> Inl e | Inr n \<Rightarrow> Inr (c @ n)))"

definition be32 :: "byte \<Rightarrow> byte \<Rightarrow> byte \<Rightarrow> byte \<Rightarrow> int" where
  "be32 a b c d = uint a * 2 ^ 24 + uint b * 2 ^ 16 + uint c * 2 ^ 8 + uint d"

definition unpack_I :: "bytes \<Rightarrow> exn + int" where
  "unpack_I buf = (case buf of [a, b, c, d] \<Rightarrow> Inr (be32 a b c d) | _ \<Rightarrow> Inl StructError)"

definition unpack_bool :: "bytes \<Rightarrow> exn + bool" where
  "unpack_bool buf = (case buf of [a] \<Rightarrow> Inr (a \<noteq> 0) | _ \<Rightarrow> Inl StructError)"

definition unpack_bool_I :: "bytes \<Rightarrow> exn + (bool \<times> int)" where
  "unpack_bool_I buf =
     (case buf of [f, a, b, c, d] \<Rightarrow> Inr (f \<noteq> 0, be32 a b c d) | _ \<Rightarrow> Inl StructError)"

text \<open>
  Modelled from the spec: the decoder of the request header. The client only encodes
  headers (\<open>send_command\<close>); the peer that decodes them is not part of the sources. The
  spec fixes the layout as 1 byte command code followed by 4 bytes unsigned big-endian
  payload length, and makes decoding from fewer bytes than required an error; this is
  \<open>struct.unpack('!BI', buf)\<close>.
\<close>

definition unpack_BI :: "bytes \<Rightarrow> exn + (int \<times> int)" where
  "unpack_BI buf =
     (case buf of [k, a, b, c, d] \<Rightarrow> Inr (uint k, be32 a b c d) | _ \<Rightarrow> Inl StructError)"

section \<open>Chunk planner\<close>

text \<open>
  \<open>upload_file\<close> (lines 107 to 111) and \<open>download_file\<close> (lines 159 and 167 to 169)
  compute the byte range of chunk \<open>i\<close> with the same two assignments; \<open>chunk_bounds\<close> is
  that loop body, \<open>floordiv\<close> is Python's \<open>//\<close>, and \<open>chunk_ranges\<close> is the sequence of
  ranges that the loop over \<open>range(chunk_count)\<close> produces.
\<close>

definition floordiv :: "int \<Rightarrow> int \<Rightarrow> exn + int" where
  "floordiv a b = (if b = 0 then Inl ZeroDivisionError else Inr (a div b))"

definition chunk_bounds :: "int \<Rightarrow> int \<Rightarrow> int \<Rightarrow> int \<Rightarrow> int \<times> int" where
  "chunk_bounds file_size chunk_count chunk_size i =
     (let start_byte = i * chunk_size;
          end_byte = (if i = chunk_count - 1 then file_size - 1
                      else start_byte + chunk_size - 1)
      in (start_byte, end_byte))"

definition chunk_ranges :: "int \<Rightarrow> int \<Rightarrow> exn + (int \<times> int) list" where
  "chunk_ranges file_size chunk_count =
     (case floordiv file_size chunk_count of
        Inl e \<Rightarrow> Inl e
      | Inr chunk_size \<Rightarrow>
          Inr (map (chunk_bounds file_size chunk_count chunk_size) [0..chunk_count - 1]))"

text \<open>The bytes of an inclusive range; a range whose start exceeds its end has none.\<close>

definition range_bytes :: "int \<times> int \<Rightarrow> int set" where
  "range_bytes r = {fst r..snd r}"

section \<open>Exceptions and mutable state\<close>

text \<open>
  A statement that may raise and that mutates a state \<open>'s\<close> is a function from the state
  to a result and the new state; the state survives a raise, as it does in Python.
  \<open>seq\<close> is sequencing with a bound result, \<open>try_except\<close> is
  \<open>try: ... except Exception as e: ...\<close>.
\<close>

type_synonym ('s, 'a) prog = "'s \<Rightarrow> (exn + 'a) \<times> 's"

definition returns :: "'a \<Rightarrow> ('s, 'a) prog" where
  "returns x = (\<lambda>s. (Inr x, s))"

definition raise :: "exn \<Rightarrow> ('s, 'a) prog" where
  "raise e = (\<lambda>s. (Inl e, s))"

definition lift :: "exn + 'a \<Rightarrow> ('s, 'a) prog" where
  "lift r = (\<lambda>s. (r, s))"

definition seq :: "('s, 'a) prog \<Rightarrow> ('a \<Rightarrow> ('s, 'b) prog) \<Rightarrow> ('s, 'b) prog" where
  "seq m f = (\<lambda>s. case m s of (Inl e, s') \<Rightarrow> (Inl e, s') | (Inr x, s') \<Rightarrow> f x s')"

definition try_except :: "('s, 'a) prog \<Rightarrow> (exn \<Rightarrow> ('s, 'a) prog) \<Rightarrow> ('s, 'a) prog" where
  "try_except m h = (\<lambda>s. case m s of (Inl e, s') \<Rightarrow> h e s' | (Inr x, s') \<Rightarrow> (Inr x, s'))"

fun for_each :: "'a list \<Rightarrow> ('a \<Rightarrow> ('s, unit) prog) \<Rightarrow> ('s, unit) prog" where
  "for_each [] body = returns ()"
| "for_each (x # xs) body = seq (body x) (\<lambda>_. for_each xs body)"

section \<open>Sockets\<close>

text \<open>
  A connected socket is the script of its peer and of the transport: \<open>rx\<close> lists what
  successive calls of \<open>recv\<close> meet, a segment of bytes that has arrived or an exception
  (a timeout, a reset); when the list is exhausted the peer has closed the stream and
  \<open>recv\<close> returns the empty bytes object. \<open>tx_fail = Some (k, e)\<close> says that the
  transport accepts \<open>k\<close> more bytes and then raises \<open>e\<close>. \<open>tx\<close> collects the bytes sent.
\<close>

record sock =
  rx :: "(exn + bytes) list"
  tx_fail :: "(nat \<times> exn) option"
  tx :: bytes

definition sendall :: "bytes \<Rightarrow> (sock, unit) prog" where
  "sendall data s =
     (case tx_fail s of
        None \<Rightarrow> (Inr (), s\<lparr>tx := tx s @ data\<rparr>)
      | Some (k, e) \<Rightarrow>
          if length data \<le> k
          then (Inr (), s\<lparr>tx := tx s @ data, tx_fail := Some (k - length data, e)\<rparr>)
          else (Inl e, s\<lparr>tx := tx s @ take k data, tx_fail := Some (0, e)\<rparr>))"

definition recv :: "int \<Rightarrow> (sock, bytes) prog" where
  "recv bufsize s =
     (if bufsize < 0 then (Inl ValueError, s)
      else case rx s of
        [] \<Rightarrow> (Inr [], s)
      | Inl e # rest \<Rightarrow> (Inl e, s\<lparr>rx := rest\<rparr>)
      | Inr seg # rest \<Rightarrow>
          (Inr (take (nat bufsize) seg),
           s\<lparr>rx := (if drop (nat bufsize) seg = [] then rest
                     else Inr (drop (nat bufsize) seg) # rest)\<rparr>))"

definition send_command :: "int \<Rightarrow> int \<Rightarrow> (sock, unit) prog" where
  "send_command command data_length = seq (lift (pack_BI command data_length)) sendall"

definition send_int :: "int \<Rightarrow> (sock, unit) prog" where
  "send_int v = seq (lift (pack_I v)) sendall"

definition recv_bool :: "(sock, bool) prog" where
  "recv_bool = seq (recv 1) (\<lambda>buf. lift (unpack_bool buf))"

definition recv_int :: "(sock, int) prog" where
  "recv_int = seq (recv 4) (\<lambda>buf. lift (unpack_I buf))"

text \<open>The \<open>while\<close> loop of \<open>recv_all\<close>, with \<open>data\<close> the bytes collected so far.\<close>

function recv_all_loop :: "int \<Rightarrow> bytes \<Rightarrow> (sock, bytes) prog" where
  "recv_all_loop len data s =
     (if int (length data) < len then
        (case recv (len - int (length data)) s of
           (Inl e, s') \<Rightarrow> (Inl e, s')
         | (Inr packet, s') \<Rightarrow>
             if packet = []
             then (Inl (ConnectionError ''Socket connection closed before receiving all data''), s')
             else recv_all_loop len (data @ packet) s')
      else (Inr data, s))"
  by pat_completeness auto
termination
  by (relation "measure (\<lambda>(len, data, s). nat (len - int (length data)))") auto

definition recv_all :: "int \<Rightarrow> (sock, bytes) prog" where
  "recv_all len = recv_all_loop len []"


section \<open>The world of one client call\<close>

text \<open>
  The module \<open>commands\<close> that holds the command codes is not part of the sources; the
  codes are a parameter of every operation.
\<close>

record commands =
  PING :: int
  LIST :: int
  REQUEST_UPLOAD :: int
  UPLOAD_CHUNK :: int
  REQUEST_DOWNLOAD :: int
  DOWNLOAD_CHUNK :: int
  DELETE :: int

text \<open>
  Every operation opens one control connection, and every chunk worker opens one
  connection of its own. \<open>server\<close> says for each of them whether \<open>connect\<close> raises or
  which socket it yields. The file system maps a path to a directory (with the size
  that \<open>os.stat\<close> reports for it) or to the content of a regular file; \<open>denied\<close> lists the
  paths whose \<open>open\<close> raises for a reason outside the model (a missing parent directory,
  missing permissions). The remaining fields record what the call does: the connections
  it has closed with the bytes sent on each, the arguments of the threads it has
  started, the signals it has sent and the lines it has printed.
\<close>

datatype conn = Control | Chunk int

datatype entry = Directory int | File bytes

datatype line = ErrorLine string exn | ChunkLine string int int int

record world =
  server :: "conn \<Rightarrow> exn + sock"
  entries :: "string \<rightharpoonup> entry"
  denied :: "string \<rightharpoonup> exn"
  closed_conns :: "(conn \<times> bytes) list"
  threads :: "(int \<times> int \<times> int) list"
  signals :: "(string \<times> int) list"
  stdout :: "line list"

text \<open>
  Inside \<open>with socket.socket(...) as sock: sock.connect(self.address)\<close> the state is the
  socket together with the world; leaving the block closes the socket, also when the
  block raises.
\<close>

definition on_sock :: "(sock, 'a) prog \<Rightarrow> (sock \<times> world, 'a) prog" where
  "on_sock m = (\<lambda>(s, w). case m s of (r, s') \<Rightarrow> (r, (s', w)))"

definition on_world :: "(world, 'a) prog \<Rightarrow> (sock \<times> world, 'a) prog" where
  "on_world m = (\<lambda>(s, w). case m w of (r, w') \<Rightarrow> (r, (s, w')))"

definition with_socket :: "conn \<Rightarrow> (sock \<times> world, 'a) prog \<Rightarrow> (world, 'a) prog" where
  "with_socket c body w =
     (case server w c of
        Inl e \<Rightarrow> (Inl e, w)
      | Inr s \<Rightarrow>
          (case body (s, w) of
             (r, (s', w')) \<Rightarrow> (r, w'\<lparr>closed_conns := closed_conns w' @ [(c, tx s')]\<rparr>)))"

definition print :: "line \<Rightarrow> (world, unit) prog" where
  "print ln w = (Inr (), w\<lparr>stdout := stdout w @ [ln]\<rparr>)"

text \<open>\<open>signal.send(self, chunk = n)\<close>; the connected handlers are taken not to raise.\<close>

definition signal_send :: "string \<Rightarrow> int \<Rightarrow> (world, unit) prog" where
  "signal_send name chunk w = (Inr (), w\<lparr>signals := signals w @ [(name, chunk)]\<rparr>)"

text \<open>
  \<open>threading.Thread(target, args).start()\<close>. The started worker runs to completion
  before the starter continues, which is one of the schedules of the threads; an
  exception of the target does not reach the starter. With this schedule
  \<open>thread.join()\<close> has nothing left to wait for.
\<close>

definition thread_start :: "int \<times> int \<times> int \<Rightarrow> (world, unit) prog \<Rightarrow> (world, unit) prog" where
  "thread_start args target w = (Inr (), snd (target (w\<lparr>threads := threads w @ [args]\<rparr>)))"

subsection \<open>Paths and files\<close>

text \<open>
  \<open>os.path.basename\<close> and \<open>os.path.join\<close> of \<open>posixpath\<close>. A \<open>str\<close> is the list of its
  code points, which the type \<open>char\<close> keeps below 256; \<open>str.encode()\<close> is UTF-8, one byte
  for a code point below 128 and two bytes for the others, so that \<open>len\<close> of a name and
  \<open>len\<close> of its encoding differ for a name that is not ASCII.
\<close>

definition basename :: "string \<Rightarrow> string" where
  "basename p = rev (takeWhile (\<lambda>c. c \<noteq> CHR ''/'') (rev p))"

definition join :: "string \<Rightarrow> string \<Rightarrow> string" where
  "join a b =
     (if b \<noteq> [] \<and> hd b = CHR ''/'' then b
      else if a = [] \<or> last a = CHR ''/'' then a @ b
      else a @ ''/'' @ b)"

definition utf8 :: "char \<Rightarrow> bytes" where
  "utf8 c =
     (let n = (of_char c :: nat)
      in if n < 128 then [of_nat n] else [of_nat (192 + n div 64), of_nat (128 + n mod 64)])"

definition encode :: "string \<Rightarrow> bytes" where
  "encode name = concat (map utf8 name)"

definition path_exists :: "string \<Rightarrow> world \<Rightarrow> bool" where
  "path_exists p w = (entries w p \<noteq> None)"

definition getsize :: "string \<Rightarrow> (world, int) prog" where
  "getsize p w =
     (case entries w p of
        None \<Rightarrow> (Inl (FileNotFoundError ''No such file or directory''), w)
      | Some (Directory n) \<Rightarrow> (Inr n, w)
      | Some (File content) \<Rightarrow> (Inr (int (length content)), w))"

datatype mode = RB | WB | RPlusB

record handle =
  fpath :: string
  fpos :: int

definition open_file :: "string \<Rightarrow> mode \<Rightarrow> (world, handle) prog" where
  "open_file p m w =
     (case denied w p of
        Some e \<Rightarrow> (Inl e, w)
      | None \<Rightarrow>
          (case entries w p of
             Some (Directory n) \<Rightarrow> (Inl IsADirectoryError, w)
           | Some (File content) \<Rightarrow>
               (Inr \<lparr>fpath = p, fpos = 0\<rparr>,
                if m = WB then w\<lparr>entries := (entries w)(p \<mapsto> File [])\<rparr> else w)
           | None \<Rightarrow>
               if m = WB
               then (Inr \<lparr>fpath = p, fpos = 0\<rparr>, w\<lparr>entries := (entries w)(p \<mapsto> File [])\<rparr>)
               else (Inl (FileNotFoundError ''No such file or directory''), w)))"

definition seek :: "handle \<Rightarrow> int \<Rightarrow> exn + handle" where
  "seek f offset = (if offset < 0 then Inl OSError else Inr (f\<lparr>fpos := offset\<rparr>))"

text \<open>
  Writing at a position past the end of the file fills the gap with zero bytes; writing
  the empty bytes object changes nothing, wherever the position is.
\<close>

definition write_at :: "bytes \<Rightarrow> nat \<Rightarrow> bytes \<Rightarrow> bytes" where
  "write_at content pos data =
     (if data = [] then content
      else take pos content @ replicate (pos - length content) 0 @ data
             @ drop (pos + length data) content)"

definition file_write :: "handle \<Rightarrow> bytes \<Rightarrow> (world, unit) prog" where
  "file_write f data w =
     (case entries w (fpath f) of
        Some (File content) \<Rightarrow>
          (Inr (), w\<lparr>entries := (entries w)(fpath f \<mapsto> File (write_at content (nat (fpos f)) data))\<rparr>)
      | _ \<Rightarrow> (Inl OSError, w))"

text \<open>
  \<open>file.read(n)\<close> reads up to \<open>n\<close> bytes, reads to the end of the file for \<open>n = -1\<close> and
  raises \<open>ValueError\<close> for any other negative \<open>n\<close>.
\<close>

definition file_read :: "handle \<Rightarrow> int \<Rightarrow> (world, bytes) prog" where
  "file_read f n w =
     (case entries w (fpath f) of
        Some (File content) \<Rightarrow>
          if n < - 1 then (Inl ValueError, w)
          else (Inr (if n = - 1 then drop (nat (fpos f)) content
                     else take (nat n) (drop (nat (fpos f)) content)), w)
      | _ \<Rightarrow> (Inl OSError, w))"

section \<open>The operations of \<open>FileTransferClient\<close>\<close>

text \<open>
  Each operation is one \<open>try\<close> statement whose handler prints the exception. For the two
  file operations and the two chunk workers the block under \<open>try\<close> is a definition of
  its own, named after the operation.
\<close>

definition ping :: "commands \<Rightarrow> (world, bool) prog" where
  "ping cmd =
     try_except
       (with_socket Control
          (seq (on_sock (send_command (PING cmd) 0)) (\<lambda>_.
           on_sock recv_bool)))
       (\<lambda>e. seq (print (ErrorLine ''[PING ERROR]'' e)) (\<lambda>_. returns False))"

definition upload_chunk_body ::
  "commands \<Rightarrow> string \<Rightarrow> int \<Rightarrow> int \<Rightarrow> int \<Rightarrow> (world, unit) prog" where
  "upload_chunk_body cmd path start_byte end_byte chunk_number =
       (with_socket (Chunk chunk_number)
          (let file_name = encode (basename path) in
           seq (on_sock (send_command (UPLOAD_CHUNK cmd) (int (length file_name)))) (\<lambda>_.
           seq (on_sock (sendall file_name)) (\<lambda>_.
           seq (on_sock (send_int start_byte)) (\<lambda>_.
           seq (on_sock (send_int end_byte)) (\<lambda>_.
           seq (on_world (open_file path RB)) (\<lambda>file.
           seq (lift (seek file start_byte)) (\<lambda>file.
           seq (on_world (file_read file (end_byte - start_byte + 1))) (\<lambda>data.
           seq (on_sock (sendall data)) (\<lambda>_.
           seq (on_world (signal_send ''chunk_uploaded'' chunk_number)) (\<lambda>_.
           on_world (print (ChunkLine ''uploaded'' chunk_number start_byte end_byte)))))))))))))"

definition upload_chunk :: "commands \<Rightarrow> string \<Rightarrow> int \<Rightarrow> int \<Rightarrow> int \<Rightarrow> (world, unit) prog" where
  "upload_chunk cmd path start_byte end_byte chunk_number =
     try_except
       (upload_chunk_body cmd path start_byte end_byte chunk_number)
       (\<lambda>e. print (ErrorLine ''[CHUNK UPLOAD ERROR]'' e))"

definition upload_file_body :: "commands \<Rightarrow> string \<Rightarrow> int \<Rightarrow> (world, unit) prog" where
  "upload_file_body cmd path chunk_count =
       (with_socket Control
          (let file_name = encode (basename path) in
           seq (on_sock (send_command (REQUEST_UPLOAD cmd) (int (length file_name)))) (\<lambda>_.
           seq (on_sock (sendall file_name)) (\<lambda>_.
           seq (on_sock recv_bool) (\<lambda>file_exists.
           if file_exists then raise (FileExistsError ''File has already existed on the server'')
           else
           seq (on_world (getsize path)) (\<lambda>file_size.
           seq (on_sock (send_int file_size)) (\<lambda>_.
           seq (lift (floordiv file_size chunk_count)) (\<lambda>chunk_size.
           for_each [0..chunk_count - 1] (\<lambda>i.
             case chunk_bounds file_size chunk_count chunk_size i of
               (start_byte, end_byte) \<Rightarrow>
                 on_world (thread_start (start_byte, end_byte, i)
                   (upload_chunk cmd path start_byte end_byte i)))))))))))"

definition upload_file :: "commands \<Rightarrow> string \<Rightarrow> int \<Rightarrow> (world, unit) prog" where
  "upload_file cmd path chunk_count =
     try_except
       (upload_file_body cmd path chunk_count)
       (\<lambda>e. print (ErrorLine ''[FILE UPLOAD ERROR]:'' e))"

definition download_chunk_body ::
  "commands \<Rightarrow> string \<Rightarrow> string \<Rightarrow> int \<Rightarrow> int \<Rightarrow> int \<Rightarrow> (world, unit) prog" where
  "download_chunk_body cmd file_name destination start_byte end_byte chunk_number =
       (with_socket (Chunk chunk_number)
          (seq (on_sock (send_command (DOWNLOAD_CHUNK cmd) (int (length file_name)))) (\<lambda>_.
           seq (on_sock (sendall (encode file_name))) (\<lambda>_.
           seq (on_sock (send_int start_byte)) (\<lambda>_.
           seq (on_sock (send_int end_byte)) (\<lambda>_.
           let path = join destination file_name in
           seq (on_world (open_file path RPlusB)) (\<lambda>file.
           seq (lift (seek file start_byte)) (\<lambda>file.
           seq (on_sock (recv_all (end_byte - start_byte + 1))) (\<lambda>data.
           seq (on_world (file_write file data)) (\<lambda>_.
           seq (on_world (signal_send ''chunk_downloaded'' chunk_number)) (\<lambda>_.
           on_world (print (ChunkLine ''downloaded'' chunk_number start_byte end_byte)))))))))))))"

definition download_chunk ::
  "commands \<Rightarrow> string \<Rightarrow> string \<Rightarrow> int \<Rightarrow> int \<Rightarrow> int \<Rightarrow> (world, unit) prog" where
  "download_chunk cmd file_name destination start_byte end_byte chunk_number =
     try_except
       (download_chunk_body cmd file_name destination start_byte end_byte chunk_number)
       (\<lambda>e. print (ErrorLine ''[CHUNK DOWNLOAD ERROR]'' e))"

definition download_file_body ::
  "commands \<Rightarrow> string \<Rightarrow> string \<Rightarrow> int \<Rightarrow> (world, unit) prog" where
  "download_file_body cmd file_name destination chunk_count =
       (seq (\<lambda>w. if \<not> path_exists destination w
                 then (Inl (FileNotFoundError ''Destination folder does not exist''), w)
                 else (Inr (), w)) (\<lambda>_.
        with_socket Control
          (seq (on_sock (send_command (REQUEST_DOWNLOAD cmd) (int (length file_name)))) (\<lambda>_.
           seq (on_sock (sendall (encode file_name))) (\<lambda>_.
           seq (on_sock (recv 5)) (\<lambda>buf.
           seq (lift (unpack_bool_I buf)) (\<lambda>(file_exists, file_size).
           if \<not> file_exists then raise (FileNotFoundError ''File is not on the server'')
           else
           seq (lift (floordiv file_size chunk_count)) (\<lambda>chunk_size.
           let path = join destination file_name in
           seq (on_world (open_file path WB)) (\<lambda>file.
           seq (lift (seek file (file_size - 1))) (\<lambda>file.
           seq (on_world (file_write file [0])) (\<lambda>_.
           for_each [0..chunk_count - 1] (\<lambda>i.
             case chunk_bounds file_size chunk_count chunk_size i of
               (start_byte, end_byte) \<Rightarrow>
                 on_world (thread_start (start_byte, end_byte, i)
                   (download_chunk cmd file_name destination start_byte end_byte i))))))))))))))"

definition download_file :: "commands \<Rightarrow> string \<Rightarrow> string \<Rightarrow> int \<Rightarrow> (world, unit) prog" where
  "download_file cmd file_name destination chunk_count =
     try_except
       (download_file_body cmd file_name destination chunk_count)
       (\<lambda>e. print (ErrorLine ''[FILE DOWNLOAD ERROR]'' e))"


section \<open>Worlds used as examples\<close>

text \<open>
  Concrete command codes and worlds on which the operations are run below. \<open>offline\<close>
  refuses every connection and has an empty file system; the other worlds change its
  server and its files.
\<close>

definition codes :: commands where
  "codes = \<lparr>PING = 0, LIST = 1, REQUEST_UPLOAD = 2, UPLOAD_CHUNK = 3,
             REQUEST_DOWNLOAD = 4, DOWNLOAD_CHUNK = 5, DELETE = 6\<rparr>"

definition peer :: "(exn + bytes) list \<Rightarrow> sock" where
  "peer script = \<lparr>rx = script, tx_fail = None, tx = []\<rparr>"

definition offline :: world where
  "offline = \<lparr>server = (\<lambda>c. Inl ConnectionRefusedError), entries = Map.empty,
               denied = Map.empty, closed_conns = [], threads = [], signals = [],
               stdout = []\<rparr>"

definition colliding :: world where
  "colliding = offline\<lparr>server := (\<lambda>c. case c of Control \<Rightarrow> Inr (peer [Inr [1]])
                                          | Chunk i \<Rightarrow> Inr (peer []))\<rparr>"

definition empty_remote :: world where
  "empty_remote = offline\<lparr>server := (\<lambda>c. case c of Control \<Rightarrow> Inr (peer [Inr [1, 0, 0, 0, 0]])
                                              | Chunk i \<Rightarrow> Inr (peer [])),
                          entries := [''client_data'' \<mapsto> Directory 4096]\<rparr>"

definition two_bytes :: world where
  "two_bytes = offline\<lparr>server := (\<lambda>c. case c of Control \<Rightarrow> Inr (peer [Inr [0]])
                                           | Chunk i \<Rightarrow> Inr (peer [])),
                       entries := [''a.bin'' \<mapsto> File [7, 9]]\<rparr>"


section \<open>What a chunk worker may change\<close>

text \<open>
  \<open>quiet_step w w'\<close> relates a world to a later one when signals were only appended and,
  if none was appended, the file system is the same. A download worker changes a file
  only on the path that ends with its \<open>chunk_downloaded\<close> signal.
\<close>

definition quiet_step :: "world \<Rightarrow> world \<Rightarrow> bool" where
  "quiet_step w w' \<longleftrightarrow>
     (\<exists>extra. signals w' = signals w @ extra) \<and>
     (signals w' = signals w \<longrightarrow> entries w' = entries w)"

section \<open>Properties of the chunk planner\<close>

lemma div_bounds:
  fixes sz n :: int
  assumes "0 \<le> sz" "1 \<le> n"
  shows "0 \<le> sz div n" "n * (sz div n) \<le> sz"
proof -
  show "0 \<le> sz div n" using assms by (simp add: pos_imp_zdiv_nonneg_iff)
  have "sz = n * (sz div n) + sz mod n" by simp
  moreover have "0 \<le> sz mod n" using assms by simp
  ultimately show "n * (sz div n) \<le> sz" by linarith
qed

lemma chunk_ranges_Inr:
  "n \<noteq> 0 \<Longrightarrow> chunk_ranges sz n = Inr (map (chunk_bounds sz n (sz div n)) [0..n - 1])"
  by (simp add: chunk_ranges_def floordiv_def)

lemma nth_plan:
  "k < nat n \<Longrightarrow> map (chunk_bounds sz n c) [0..n - 1] ! k = chunk_bounds sz n c (int k)"
  by (simp add: nth_upto)

lemma plan_mid:
  "0 \<le> i \<Longrightarrow> i < n - 1 \<Longrightarrow> chunk_bounds sz n c i = (i * c, (i + 1) * c - 1)"
  by (simp add: chunk_bounds_def Let_def algebra_simps)

lemma plan_last:
  "chunk_bounds sz n c (n - 1) = ((n - 1) * c, sz - 1)"
  by (simp add: chunk_bounds_def Let_def)

lemma plan_fst: "fst (chunk_bounds sz n c i) = i * c"
  by (simp add: chunk_bounds_def Let_def)

lemma plan_snd_mid: "i \<noteq> n - 1 \<Longrightarrow> snd (chunk_bounds sz n c i) = i * c + c - 1"
  by (simp add: chunk_bounds_def Let_def)

lemma plan_snd_last: "snd (chunk_bounds sz n c (n - 1)) = sz - 1"
  by (simp add: chunk_bounds_def Let_def)

lemma plan_sorted:
  assumes "0 \<le> c"
  shows "sorted (map fst (map (chunk_bounds sz n c) [0..n - 1]))"
proof -
  have "map fst (map (chunk_bounds sz n c) [0..n - 1]) = map (\<lambda>i. i * c) [0..n - 1]"
    by (simp add: plan_fst)
  moreover have "sorted (map (\<lambda>i. i * c) [0..n - 1])"
    using assms by (intro sorted_map_mono) (auto simp: mono_on_def mult_right_mono)
  ultimately show ?thesis by (simp only:)
qed

lemma plan_disjoint:
  assumes c: "0 \<le> c" and ij: "0 \<le> i" "i < j" "j \<le> n - 1"
  shows "range_bytes (chunk_bounds sz n c i) \<inter> range_bytes (chunk_bounds sz n c j) = {}"
proof -
  have "(i + 1) * c \<le> j * c" using c ij by (intro mult_right_mono) auto
  then have "i * c + c - 1 < j * c" by (simp add: algebra_simps)
  moreover have "snd (chunk_bounds sz n c i) = i * c + c - 1" using ij by (simp add: plan_snd_mid)
  ultimately show ?thesis by (auto simp: range_bytes_def plan_fst)
qed

lemma plan_union:
  assumes sz: "0 \<le> sz" and n: "1 \<le> n" and c: "c = sz div n"
  shows "\<Union> (range_bytes ` set (map (chunk_bounds sz n c) [0..n - 1])) = {0..sz - 1}"
proof (intro equalityI subsetI)
  have c0: "0 \<le> c" and nc: "n * c \<le> sz" using div_bounds[OF sz n] c by simp_all
  fix x assume "x \<in> \<Union> (range_bytes ` set (map (chunk_bounds sz n c) [0..n - 1]))"
  then obtain i where i: "0 \<le> i" "i \<le> n - 1" and x: "x \<in> range_bytes (chunk_bounds sz n c i)"
    by auto
  have lo: "0 \<le> i * c" using i c0 by simp
  have "snd (chunk_bounds sz n c i) \<le> sz - 1"
  proof (cases "i = n - 1")
    case True then show ?thesis by (simp add: plan_snd_last)
  next
    case False
    then have "(i + 1) * c \<le> n * c" using i c0 by (intro mult_right_mono) auto
    then show ?thesis using False nc by (simp add: plan_snd_mid algebra_simps)
  qed
  then show "x \<in> {0..sz - 1}" using x lo by (auto simp: range_bytes_def plan_fst)
next
  have c0: "0 \<le> c" and nc: "n * c \<le> sz" using div_bounds[OF sz n] c by simp_all
  fix x assume x: "x \<in> {0..sz - 1}"
  show "x \<in> \<Union> (range_bytes ` set (map (chunk_bounds sz n c) [0..n - 1]))"
  proof (cases "(n - 1) * c \<le> x")
    case True
    then have "x \<in> range_bytes (chunk_bounds sz n c (n - 1))"
      using x by (simp add: range_bytes_def plan_fst plan_snd_last)
    moreover have "n - 1 \<in> set [0..n - 1]" using n by simp
    ultimately show ?thesis by auto
  next
    case False
    then have cpos: "0 < c" using x c0 n
      by (cases "c = 0") auto
    define i where "i = x div c"
    have i0: "0 \<le> i" using x cpos by (simp add: i_def pos_imp_zdiv_nonneg_iff)
    have xi: "i * c \<le> x" "x < i * c + c"
    proof -
      have e: "c * (x div c) + x mod c = x" by simp
      have m: "0 \<le> x mod c" "x mod c < c" using cpos by simp_all
      have ic: "i * c = c * (x div c)" by (simp add: i_def)
      show "i * c \<le> x" using e m ic by linarith
      show "x < i * c + c" using e m ic by linarith
    qed
    have "i < n - 1"
    proof (rule ccontr)
      assume "\<not> i < n - 1"
      then have "(n - 1) * c \<le> i * c" using c0 by (intro mult_right_mono) auto
      with xi False show False by linarith
    qed
    then have "x \<in> range_bytes (chunk_bounds sz n c i)"
      using xi by (simp add: range_bytes_def plan_fst plan_snd_mid)
    moreover have "i \<in> set [0..n - 1]" using i0 \<open>i < n - 1\<close> by simp
    ultimately show ?thesis by auto
  qed
qed

text \<open>
  Claim C1. For every file size \<open>sz \<ge> 0\<close> and every chunk count \<open>n \<ge> 1\<close> the planner
  returns \<open>n\<close> ranges that are ordered by start offset and pairwise disjoint, whose
  union is exactly the byte interval from \<open>0\<close> to \<open>sz - 1\<close> (empty when \<open>sz = 0\<close>), and
  the end offset of the last range is \<open>sz - 1\<close>.
\<close>

theorem chunk_ranges_partition:
  assumes sz: "0 \<le> sz" and n: "1 \<le> n"
  shows "\<exists>rs. chunk_ranges sz n = Inr rs \<and> int (length rs) = n \<and>
           sorted (map fst rs) \<and>
           (\<forall>i j. i < j \<and> j < length rs \<longrightarrow> range_bytes (rs ! i) \<inter> range_bytes (rs ! j) = {}) \<and>
           \<Union> (range_bytes ` set rs) = {0..sz - 1} \<and>
           (sz = 0 \<longrightarrow> \<Union> (range_bytes ` set rs) = {}) \<and>
           snd (last rs) = sz - 1"
proof -
  let ?c = "sz div n"
  let ?rs = "map (chunk_bounds sz n ?c) [0..n - 1]"
  have c0: "0 \<le> ?c" using div_bounds(1)[OF sz n] .
  have 1: "chunk_ranges sz n = Inr ?rs" using n by (simp add: chunk_ranges_Inr)
  have 2: "int (length ?rs) = n" using n by simp
  have 3: "sorted (map fst ?rs)" using c0 by (rule plan_sorted)
  have 4: "\<forall>i j. i < j \<and> j < length ?rs \<longrightarrow> range_bytes (?rs ! i) \<inter> range_bytes (?rs ! j) = {}"
  proof (intro allI impI)
    fix i j assume ij: "i < j \<and> j < length ?rs"
    then have "i < nat n" "j < nat n" by simp_all
    then have "?rs ! i = chunk_bounds sz n ?c (int i)" "?rs ! j = chunk_bounds sz n ?c (int j)"
      by (simp_all only: nth_plan)
    moreover have "range_bytes (chunk_bounds sz n ?c (int i)) \<inter> range_bytes (chunk_bounds sz n ?c (int j)) = {}"
      using ij by (intro plan_disjoint[OF c0]) auto
    ultimately show "range_bytes (?rs ! i) \<inter> range_bytes (?rs ! j) = {}" by simp
  qed
  have 5: "\<Union> (range_bytes ` set ?rs) = {0..sz - 1}"
    using plan_union[OF sz n refl] .
  have "{0..sz - 1} = {}" if "sz = 0" using that by simp
  then have 6: "sz = 0 \<longrightarrow> \<Union> (range_bytes ` set ?rs) = {}"
    by (simp only: 5) blast
  have ne: "?rs \<noteq> []" using n by simp
  have "last ?rs = ?rs ! nat (n - 1)" using ne n by (simp add: last_conv_nth nat_diff_distrib)
  also have "\<dots> = chunk_bounds sz n ?c (n - 1)" using n by (simp add: nth_plan)
  finally have 7: "snd (last ?rs) = sz - 1" by (simp add: plan_snd_last)
  from 1 2 3 4 5 6 7 show ?thesis by blast
qed

theorem chunk_ranges_partition_witness:
  "(0::int) \<le> 10 \<and> (1::int) \<le> 4 \<and>
   (\<exists>rs. chunk_ranges 10 4 = Inr rs \<and> int (length rs) = 4 \<and> sorted (map fst rs) \<and>
      (\<forall>i j. i < j \<and> j < length rs \<longrightarrow> range_bytes (rs ! i) \<inter> range_bytes (rs ! j) = {}) \<and>
      \<Union> (range_bytes ` set rs) = {0..10 - 1} \<and>
      (10 = (0::int) \<longrightarrow> \<Union> (range_bytes ` set rs) = {}) \<and>
      snd (last rs) = 10 - 1)"
  using chunk_ranges_partition[of 10 4] by simp

text \<open>
  Claim C2. With \<open>base = sz div n\<close>, chunk \<open>i < n - 1\<close> is the range from \<open>i * base\<close> to
  \<open>(i + 1) * base - 1\<close> and the final chunk is the range from \<open>(n - 1) * base\<close> to
  \<open>sz - 1\<close>, for every \<open>sz \<ge> 1\<close> and \<open>n \<ge> 1\<close>; for a 10-byte file and 4 chunks the
  ranges are \<open>[0,1]\<close>, \<open>[2,3]\<close>, \<open>[4,5]\<close>, \<open>[6,9]\<close>.
\<close>

theorem chunk_ranges_formula:
  "chunk_ranges 10 4 = Inr [(0, 1), (2, 3), (4, 5), (6, 9)] \<and>
   (1 \<le> sz \<and> 1 \<le> n \<longrightarrow>
     (\<exists>rs. chunk_ranges sz n = Inr rs \<and> int (length rs) = n \<and>
        (\<forall>i. 0 \<le> i \<and> i < n - 1 \<longrightarrow>
            rs ! nat i = (i * (sz div n), (i + 1) * (sz div n) - 1)) \<and>
        rs ! nat (n - 1) = ((n - 1) * (sz div n), sz - 1)))"
proof (intro conjI impI)
  have "[0..3::int] = [0, 1, 2, 3]" by (simp add: upto.simps)
  then show "chunk_ranges 10 4 = Inr [(0, 1), (2, 3), (4, 5), (6, 9)]"
    by (simp add: chunk_ranges_def floordiv_def chunk_bounds_def Let_def)
next
  assume a: "1 \<le> sz \<and> 1 \<le> n"
  let ?rs = "map (chunk_bounds sz n (sz div n)) [0..n - 1]"
  have 1: "chunk_ranges sz n = Inr ?rs" using a by (simp add: chunk_ranges_Inr)
  have 2: "int (length ?rs) = n" using a by simp
  have 3: "\<forall>i. 0 \<le> i \<and> i < n - 1 \<longrightarrow> ?rs ! nat i = (i * (sz div n), (i + 1) * (sz div n) - 1)"
    using a by (auto simp: nth_plan plan_mid)
  have 4: "?rs ! nat (n - 1) = ((n - 1) * (sz div n), sz - 1)"
    using a by (simp add: nth_plan plan_last)
  from 1 2 3 4 show "\<exists>rs. chunk_ranges sz n = Inr rs \<and> int (length rs) = n \<and>
        (\<forall>i. 0 \<le> i \<and> i < n - 1 \<longrightarrow>
            rs ! nat i = (i * (sz div n), (i + 1) * (sz div n) - 1)) \<and>
        rs ! nat (n - 1) = ((n - 1) * (sz div n), sz - 1)" by blast
qed

theorem chunk_ranges_formula_witness:
  "chunk_ranges 10 4 = Inr [(0, 1), (2, 3), (4, 5), (6, 9)] \<and>
   (1::int) \<le> 7 \<and> (1::int) \<le> 3 \<and>
   (\<exists>rs. chunk_ranges 7 3 = Inr rs \<and> int (length rs) = 3 \<and>
      (\<forall>i. 0 \<le> i \<and> i < 3 - 1 \<longrightarrow> rs ! nat i = (i * (7 div 3), (i + 1) * (7 div 3) - 1)) \<and>
      rs ! nat (3 - 1) = ((3 - 1) * (7 div 3), 7 - 1))"
  using chunk_ranges_formula[of 7 3] by simp

section \<open>Properties of the framing codec\<close>

lemma uint_byte: "0 \<le> x \<Longrightarrow> x < 256 \<Longrightarrow> uint (word_of_int x :: byte) = x"
  by (simp add: uint_word_of_int take_bit_eq_mod)

lemma top_byte:
  fixes v :: int
  assumes "0 \<le> v" "v < 2 ^ 32"
  shows "v div 2 ^ 24 mod 256 = v div 2 ^ 24"
proof -
  have "v < 256 * 2 ^ 24" using assms by simp
  then have "v div 2 ^ 24 < 256" by (simp add: div_less_iff_less_mult)
  moreover have "0 \<le> v div 2 ^ 24" using assms by (simp add: pos_imp_zdiv_nonneg_iff)
  ultimately show ?thesis by simp
qed

lemma be32_split:
  fixes v :: int
  assumes "0 \<le> v" "v < 2 ^ 32"
  shows "(v div 2 ^ 24 mod 256) * 2 ^ 24 + (v div 2 ^ 16 mod 256) * 2 ^ 16
          + (v div 2 ^ 8 mod 256) * 2 ^ 8 + v mod 256 = v"
proof -
  define q1 q2 q3 where "q1 = v div 256" and "q2 = q1 div 256" and "q3 = q2 div 256"
  define r0 r1 r2 where "r0 = v mod 256" and "r1 = q1 mod 256" and "r2 = q2 mod 256"
  have 1: "v = q1 * 256 + r0" by (simp add: q1_def r0_def)
  have 2: "q1 = q2 * 256 + r1" by (simp add: q2_def r1_def)
  have 3: "q2 = q3 * 256 + r2" by (simp add: q3_def r2_def)
  have d8: "v div 2 ^ 8 = q1" by (simp add: q1_def)
  have d16: "v div 2 ^ 16 = q2" by (simp add: q1_def q2_def zdiv_zmult2_eq)
  have d24: "v div 2 ^ 24 = q3" by (simp add: q1_def q2_def q3_def zdiv_zmult2_eq)
  have "q3 * 2 ^ 24 + r2 * 2 ^ 16 + r1 * 2 ^ 8 + r0 = v"
    using 1 2 3 by simp
  moreover have "q3 mod 256 = q3" using top_byte[OF assms] by (simp only: d24)
  ultimately show ?thesis
    by (simp only: d8 d16 d24 r0_def[symmetric] r1_def[symmetric] r2_def[symmetric])
qed

lemma pack_I_roundtrip:
  assumes "0 \<le> v" "v < 2 ^ 32"
  shows "\<exists>buf. pack_I v = Inr buf \<and> length buf = 4 \<and> unpack_I buf = Inr v"
proof -
  have m: "\<And>x::int. uint (word_of_int (x mod 256) :: byte) = x mod 256"
    by (rule uint_byte) simp_all
  let ?buf = "[word_of_int (v div 2 ^ 24 mod 256), word_of_int (v div 2 ^ 16 mod 256),
                word_of_int (v div 2 ^ 8 mod 256), word_of_int (v mod 256)] :: bytes"
  have p: "pack_I v = Inr ?buf" using assms unfolding pack_I_def by (simp only: simp_thms if_True)
  have "be32 (word_of_int (v div 2 ^ 24 mod 256)) (word_of_int (v div 2 ^ 16 mod 256))
          (word_of_int (v div 2 ^ 8 mod 256)) (word_of_int (v mod 256)) = v"
    unfolding be32_def m by (rule be32_split[OF assms])
  then have u: "unpack_I ?buf = Inr v" by (simp only: unpack_I_def list.case)
  have l: "length ?buf = 4" by simp
  from p u l show ?thesis by blast
qed

lemma len4: "length (buf :: 'a list) = 4 \<Longrightarrow> \<exists>b0 b1 b2 b3. buf = [b0, b1, b2, b3]"
  by (cases buf; simp; rename_tac xs, case_tac xs; simp; rename_tac ys, case_tac ys; simp; rename_tac zs, case_tac zs; simp)

lemma pack_B_roundtrip:
  assumes "0 \<le> c" "c \<le> 255"
  shows "pack_B c = Inr [word_of_int c] \<and> uint (word_of_int c :: byte) = c"
  using assms by (simp add: pack_B_def uint_byte)

lemma seq_lift_Inr: "seq (lift (Inr x)) f = f x"
  by (simp add: seq_def lift_def)

lemma seq_lift_Inl: "seq (lift (Inl e)) f s = (Inl e, s)"
  by (simp add: seq_def lift_def)

lemma sendall_open: "tx_fail s = None \<Longrightarrow> sendall data s = (Inr (), s\<lparr>tx := tx s @ data\<rparr>)"
  by (simp add: sendall_def)

lemma send_command_open:
  assumes "0 \<le> command" "command \<le> 255" "0 \<le> data_length" "data_length < 2 ^ 32"
    and "tx_fail s = None"
  shows "\<exists>header. pack_BI command data_length = Inr header \<and>
           send_command command data_length s = (Inr (), s\<lparr>tx := tx s @ header\<rparr>)"
proof -
  obtain buf where b: "pack_I data_length = Inr buf"
    using pack_I_roundtrip[OF assms(3,4)] by blast
  have k: "pack_B command = Inr [word_of_int command]"
    using pack_B_roundtrip[OF assms(1,2)] by simp
  have 1: "pack_BI command data_length = Inr ([word_of_int command] @ buf)"
    unfolding pack_BI_def by (simp only: k b sum.case)
  have 2: "send_command command data_length s
             = (Inr (), s\<lparr>tx := tx s @ [word_of_int command] @ buf\<rparr>)"
    unfolding send_command_def 1 seq_lift_Inr by (rule sendall_open[OF assms(5)])
  show ?thesis by (rule exI[of _ "[word_of_int command] @ buf"]) (rule conjI[OF 1 2])
qed

text \<open>
  Claim C6. For every command code that fits one byte and every payload length from
  \<open>0\<close> to \<open>2^32 - 1\<close>, the header that \<open>send_command\<close> packs and sends has 5 bytes, and
  decoding it yields the command and the length again.
\<close>

theorem header_roundtrip:
  assumes c: "0 \<le> command" "command \<le> 255" and n: "0 \<le> data_length" "data_length < 2 ^ 32"
  shows "\<exists>header. pack_BI command data_length = Inr header \<and> length header = 5 \<and>
           unpack_BI header = Inr (command, data_length) \<and>
           (tx_fail s = None \<longrightarrow>
              send_command command data_length s = (Inr (), s\<lparr>tx := tx s @ header\<rparr>))"
proof -
  obtain buf where b: "pack_I data_length = Inr buf" "length buf = 4" "unpack_I buf = Inr data_length"
    using pack_I_roundtrip[OF n] by blast
  from len4[OF b(2)] obtain b0 b1 b2 b3 where buf: "buf = [b0, b1, b2, b3]"
    by blast
  have k: "pack_B command = Inr [word_of_int command]" "uint (word_of_int command :: byte) = command"
    using pack_B_roundtrip[OF c] by simp_all
  let ?h = "[word_of_int command] @ buf"
  have 1: "pack_BI command data_length = Inr ?h"
    unfolding pack_BI_def by (simp only: k(1) b(1) sum.case)
  have 2: "length ?h = 5" unfolding buf by simp
  have "be32 b0 b1 b2 b3 = data_length" using b(3) unfolding buf unpack_I_def by (simp only: list.case sum.inject)
  then have 3: "unpack_BI ?h = Inr (command, data_length)"
    unfolding unpack_BI_def buf by (simp only: append_Cons append_Nil list.case k(2))
  have 4: "tx_fail s = None \<longrightarrow> send_command command data_length s = (Inr (), s\<lparr>tx := tx s @ ?h\<rparr>)"
    unfolding send_command_def 1 seq_lift_Inr by (rule impI) (rule sendall_open)
  show ?thesis
    by (rule exI[of _ ?h]) (rule conjI[OF 1 conjI[OF 2 conjI[OF 3 4]]])
qed

theorem header_roundtrip_witness:
  "(0::int) \<le> 3 \<and> (3::int) \<le> 255 \<and> (0::int) \<le> 4294967295 \<and> (4294967295::int) < 2 ^ 32 \<and>
   (\<exists>header. pack_BI 3 4294967295 = Inr header \<and> length header = 5 \<and>
      unpack_BI header = Inr (3, 4294967295) \<and>
      (tx_fail \<lparr>rx = [], tx_fail = None, tx = []\<rparr> = None \<longrightarrow>
        send_command 3 4294967295 \<lparr>rx = [], tx_fail = None, tx = []\<rparr>
          = (Inr (), \<lparr>rx = [], tx_fail = None, tx = []\<rparr>\<lparr>tx := tx \<lparr>rx = [], tx_fail = None, tx = []\<rparr> @ header\<rparr>)))"
  using header_roundtrip[of 3 4294967295 "\<lparr>rx = [], tx_fail = None, tx = []\<rparr>"] by simp

section \<open>Properties of \<open>recv_all\<close>\<close>

lemma recv_data:
  assumes "rx s = Inr seg # rest" "0 \<le> m"
  shows "recv m s = (Inr (take (nat m) seg),
           s\<lparr>rx := (if drop (nat m) seg = [] then rest else Inr (drop (nat m) seg) # rest)\<rparr>)"
  using assms by (simp add: recv_def)

lemma recv_closed: "rx s = [] \<Longrightarrow> 0 \<le> m \<Longrightarrow> recv m s = (Inr [], s)"
  by (simp add: recv_def)

lemma recv_all_loop_done:
  "\<not> int (length data) < n \<Longrightarrow> recv_all_loop n data s = (Inr data, s)"
  by (subst recv_all_loop.simps) simp

lemma recv_all_loop_stream:
  assumes "rx s = map Inr segs" "[] \<notin> set segs" "int (length data) \<le> n"
  shows "fst (recv_all_loop n data s) =
           (if int (length data + length (concat segs)) < n
            then Inl (ConnectionError ''Socket connection closed before receiving all data'')
            else Inr (data @ take (nat n - length data) (concat segs)))"
  using assms
proof (induction n data s arbitrary: segs rule: recv_all_loop.induct)
  case (1 len data s)
  show ?case
  proof (cases "int (length data) < len")
    case False
    then have "int (length data) = len" using "1.prems"(3) by simp
    then show ?thesis using False by (simp add: recv_all_loop_done)
  next
    case True
    let ?m = "len - int (length data)"
    have m: "0 < ?m" using True by simp
    show ?thesis
    proof (cases segs)
      case Nil
      then have "recv ?m s = (Inr [], s)" using "1.prems"(1) m by (simp add: recv_closed)
      then show ?thesis using True Nil by (subst recv_all_loop.simps) simp
    next
      case (Cons seg rest)
      have seg: "seg \<noteq> []" using "1.prems"(2) Cons by auto
      let ?packet = "take (nat ?m) seg"
      let ?segs' = "if drop (nat ?m) seg = [] then rest else drop (nat ?m) seg # rest"
      let ?s' = "s\<lparr>rx := (if drop (nat ?m) seg = [] then map Inr rest
                              else Inr (drop (nat ?m) seg) # map Inr rest)\<rparr>"
      have r: "recv ?m s = (Inr ?packet, ?s')"
        using "1.prems"(1) Cons m by (simp add: recv_data)
      have pne: "?packet \<noteq> []" using seg m by simp
      have rx': "rx ?s' = map Inr ?segs'" by simp
      have ne': "[] \<notin> set ?segs'" using "1.prems"(2) Cons by auto
      have le': "int (length (data @ ?packet)) \<le> len" using True by simp
      have cc: "concat segs = ?packet @ concat ?segs'" using Cons by simp
      have step: "recv_all_loop len data s = recv_all_loop len (data @ ?packet) ?s'"
        using True r pne by (subst recv_all_loop.simps) simp
      have ih: "fst (recv_all_loop len (data @ ?packet) ?s') =
           (if int (length (data @ ?packet) + length (concat ?segs')) < len
            then Inl (ConnectionError ''Socket connection closed before receiving all data'')
            else Inr ((data @ ?packet) @ take (nat len - length (data @ ?packet)) (concat ?segs')))"
        by (rule "1.IH"[OF True r[symmetric] refl pne rx' ne' le'])
      have nm: "nat ?m = nat len - length data" using True by arith
      have tk: "take (nat len - length data) (?packet @ concat ?segs')
                 = ?packet @ take (nat len - length (data @ ?packet)) (concat ?segs')"
        by (simp add: min_def nm)
      show ?thesis unfolding step ih cc tk by (simp add: add.assoc)
    qed
  qed
qed

lemma recv_all_loop_length:
  "int (length data) \<le> n \<Longrightarrow> fst (recv_all_loop n data s) = Inr buf \<Longrightarrow> int (length buf) = n"
proof (induction n data s rule: recv_all_loop.induct)
  case (1 len data s)
  show ?case
  proof (cases "int (length data) < len")
    case False
    then show ?thesis using "1.prems" by (simp add: recv_all_loop_done)
  next
    case True
    obtain r s' where rs: "recv (len - int (length data)) s = (r, s')" by (cases "recv (len - int (length data)) s")
    show ?thesis
    proof (cases r)
      case (Inl e)
      then show ?thesis using "1.prems"(2) True rs by (subst (asm) recv_all_loop.simps) simp
    next
      case (Inr packet)
      show ?thesis
      proof (cases "packet = []")
        case True': True
        then show ?thesis using "1.prems"(2) True rs Inr by (subst (asm) recv_all_loop.simps) simp
      next
        case False
        have le: "int (length (data @ packet)) \<le> len"
        proof -
          have "length packet \<le> nat (len - int (length data))"
            using rs Inr True by (auto simp: recv_def split: if_splits list.splits sum.splits)
          then show ?thesis using True by simp
        qed
        have "recv_all_loop len data s = recv_all_loop len (data @ packet) s'"
          using True rs Inr False by (subst recv_all_loop.simps) simp
        then show ?thesis
          using "1.IH"[OF True rs[symmetric, unfolded Inr] refl False le] "1.prems"(2) by simp
      qed
    qed
  qed
qed

text \<open>
  Claim C5. For \<open>n \<ge> 1\<close>, \<open>recv_all\<close> never returns a buffer whose length is not \<open>n\<close>; on
  a stream that closes after delivering fewer than \<open>n\<close> bytes it raises the
  \<open>ConnectionError\<close>, and on a stream that delivers at least \<open>n\<close> bytes it returns the
  first \<open>n\<close> of them.
\<close>

theorem recv_all_exact:
  assumes n: "1 \<le> n"
  shows "(\<forall>buf. fst (recv_all n s) = Inr buf \<longrightarrow> int (length buf) = n) \<and>
         (rx s = map Inr segs \<and> [] \<notin> set segs \<longrightarrow>
            (int (length (concat segs)) < n \<longrightarrow>
               fst (recv_all n s)
                 = Inl (ConnectionError ''Socket connection closed before receiving all data'')) \<and>
            (n \<le> int (length (concat segs)) \<longrightarrow>
               fst (recv_all n s) = Inr (take (nat n) (concat segs))))"
proof (intro conjI allI impI)
  fix buf assume "fst (recv_all n s) = Inr buf"
  then show "int (length buf) = n"
    using n recv_all_loop_length[of "[]" n s buf] by (simp add: recv_all_def)
next
  assume a: "rx s = map Inr segs \<and> [] \<notin> set segs" and k: "int (length (concat segs)) < n"
  show "fst (recv_all n s) = Inl (ConnectionError ''Socket connection closed before receiving all data'')"
    using a k n recv_all_loop_stream[of s segs "[]" n] by (simp add: recv_all_def)
next
  assume a: "rx s = map Inr segs \<and> [] \<notin> set segs" and k: "n \<le> int (length (concat segs))"
  show "fst (recv_all n s) = Inr (take (nat n) (concat segs))"
    using a k n recv_all_loop_stream[of s segs "[]" n] by (simp add: recv_all_def)
qed

theorem recv_all_exact_witness:
  "fst (recv_all 4 \<lparr>rx = [Inr [1, 2], Inr [3]], tx_fail = None, tx = []\<rparr>)
     = Inl (ConnectionError ''Socket connection closed before receiving all data'') \<and>
   fst (recv_all 3 \<lparr>rx = [Inr [1, 2], Inr [3]], tx_fail = None, tx = []\<rparr>) = Inr [1, 2, 3] \<and>
   fst (recv_all 1 \<lparr>rx = [Inr [1, 2], Inr [3]], tx_fail = None, tx = []\<rparr>) = Inr [1]"
  using recv_all_exact[of 4 "\<lparr>rx = [Inr [1, 2], Inr [3]], tx_fail = None, tx = []\<rparr>" "[[1, 2], [3]]"]
        recv_all_exact[of 3 "\<lparr>rx = [Inr [1, 2], Inr [3]], tx_fail = None, tx = []\<rparr>" "[[1, 2], [3]]"]
        recv_all_exact[of 1 "\<lparr>rx = [Inr [1, 2], Inr [3]], tx_fail = None, tx = []\<rparr>" "[[1, 2], [3]]"]
  by simp

section \<open>Running the operations\<close>

lemma seq_on_sock:
  "seq (on_sock m) f (s, w) =
     (case m s of (Inl e, s') \<Rightarrow> (Inl e, (s', w)) | (Inr x, s') \<Rightarrow> f x (s', w))"
  by (simp add: seq_def on_sock_def split: prod.splits sum.splits)

lemma seq_on_world:
  "seq (on_world m) f (s, w) =
     (case m w of (Inl e, w') \<Rightarrow> (Inl e, (s, w')) | (Inr x, w') \<Rightarrow> f x (s, w'))"
  by (simp add: seq_def on_world_def split: prod.splits sum.splits)

lemma seq_lift:
  "seq (lift r) f st = (case r of Inl e \<Rightarrow> (Inl e, st) | Inr x \<Rightarrow> f x st)"
  by (simp add: seq_def lift_def split: sum.splits)

lemma on_world_run: "on_world m (s, w) = (case m w of (r, w') \<Rightarrow> (r, (s, w')))"
  by (simp add: on_world_def)

lemma seq_guard:
  "seq (\<lambda>w. if c w then (Inl e, w) else (Inr (), w)) f w = (if c w then (Inl e, w) else f () w)"
  by (simp add: seq_def)

lemma with_socket_try:
  assumes "server w c = Inr s" "body (s, w) = (r, (s', w'))"
  shows "snd (try_except (with_socket c body) (\<lambda>e. print (f e)) w)
          = (case r of Inl e \<Rightarrow> w'\<lparr>closed_conns := closed_conns w' @ [(c, tx s')],
                                    stdout := stdout w' @ [f e]\<rparr>
                     | Inr u \<Rightarrow> w'\<lparr>closed_conns := closed_conns w' @ [(c, tx s')]\<rparr>)"
  using assms by (simp add: try_except_def with_socket_def print_def split: sum.splits)

lemma try_print_returns:
  fixes m :: "(world, unit) prog"
  shows "fst (try_except m (\<lambda>e. print (f e)) w) = Inr ()"
  by (cases "m w") (auto simp: try_except_def print_def split: sum.splits)

lemma try_print_run:
  fixes m :: "(world, unit) prog"
  shows "try_except m (\<lambda>e. print (f e)) w =
           (case m w of
              (Inl e, w') \<Rightarrow> (Inr (), w'\<lparr>stdout := stdout w' @ [f e]\<rparr>)
            | (Inr u, w') \<Rightarrow> (Inr (), w'))"
  by (cases "m w") (auto simp: try_except_def print_def split: sum.splits)

lemma with_socket_refused: "server w c = Inl e \<Longrightarrow> with_socket c body w = (Inl e, w)"
  by (simp add: with_socket_def)

lemmas run_simps =
  try_except_def with_socket_def seq_def on_sock_def on_world_def lift_def raise_def returns_def
  print_def signal_send_def thread_start_def send_command_def send_int_def sendall_def recv_def
  recv_bool_def pack_BI_def pack_B_def pack_I_def unpack_bool_def unpack_bool_I_def be32_def
  floordiv_def chunk_bounds_def open_file_def seek_def file_write_def file_read_def write_at_def
  getsize_def path_exists_def join_def basename_def encode_def utf8_def offline_def peer_def codes_def Let_def

section \<open>Properties of \<open>ping\<close>\<close>

lemma ping_unfold:
  "ping cmd w =
     (case server w Control of
        Inl e \<Rightarrow> (Inr False, w\<lparr>stdout := stdout w @ [ErrorLine ''[PING ERROR]'' e]\<rparr>)
      | Inr s \<Rightarrow>
          (case send_command (PING cmd) 0 s of
             (Inl e, s1) \<Rightarrow>
               (Inr False, w\<lparr>closed_conns := closed_conns w @ [(Control, tx s1)],
                             stdout := stdout w @ [ErrorLine ''[PING ERROR]'' e]\<rparr>)
           | (Inr u, s1) \<Rightarrow>
               (case recv_bool s1 of
                  (Inl e, s2) \<Rightarrow>
                    (Inr False, w\<lparr>closed_conns := closed_conns w @ [(Control, tx s2)],
                                  stdout := stdout w @ [ErrorLine ''[PING ERROR]'' e]\<rparr>)
                | (Inr b, s2) \<Rightarrow>
                    (Inr b, w\<lparr>closed_conns := closed_conns w @ [(Control, tx s2)]\<rparr>))))"
  by (simp add: ping_def try_except_def with_socket_def seq_on_sock on_sock_def print_def
        returns_def seq_def split: sum.splits prod.splits)

lemma send_command_short:
  assumes "tx_fail s = Some (k, e)" "k < 5"
  shows "\<exists>e' s'. send_command c n s = (Inl e', s')"
proof (cases "pack_BI c n")
  case (Inl e')
  then show ?thesis by (simp add: send_command_def seq_lift_Inl)
next
  case (Inr h)
  then have "length h = 5"
    by (auto simp: pack_BI_def pack_B_def pack_I_def split: if_splits sum.splits)
  then show ?thesis using assms Inr by (simp add: send_command_def seq_lift_Inr sendall_def)
qed

lemma send_command_rx: "send_command c n s = (r, s') \<Longrightarrow> rx s' = rx s"
  by (auto simp: send_command_def seq_def lift_def sendall_def split: sum.splits option.splits prod.splits if_splits)

lemma recv_bool_error: "rx s = Inl e # rest \<Longrightarrow> fst (recv_bool s) = Inl e"
  by (simp add: recv_bool_def seq_def recv_def)

lemma recv_bool_closed: "rx s = [] \<Longrightarrow> fst (recv_bool s) = Inl StructError"
  by (simp add: recv_bool_def seq_def recv_def lift_def unpack_bool_def)

lemma recv_bool_byte: "rx s = Inr (b # bs) # rest \<Longrightarrow> fst (recv_bool s) = Inr (b \<noteq> 0)"
  by (simp add: recv_bool_def seq_def recv_def lift_def unpack_bool_def)

lemma recv_bool_first:
  "rx s = Inr (b # bs) # rest \<Longrightarrow>
     recv_bool s = (Inr (b \<noteq> 0), s\<lparr>rx := (if bs = [] then rest else Inr bs # rest)\<rparr>)"
  by (simp add: recv_bool_def seq_def recv_def lift_def unpack_bool_def)

text \<open>
  Claim C9. \<open>ping\<close> never raises. It returns \<open>False\<close> when the connection is refused,
  when the transport fails while the header is sent, when \<open>recv\<close> raises and when the
  peer closes without an answer; when the exchange succeeds it returns the boolean
  that the byte read from the server encodes.
\<close>

theorem ping_never_raises:
  "(\<exists>b. fst (ping cmd w) = Inr b) \<and>
   (server w Control = Inl e \<longrightarrow> fst (ping cmd w) = Inr False) \<and>
   (server w Control = Inr s \<and> tx_fail s = Some (k, e) \<and> k < 5 \<longrightarrow> fst (ping cmd w) = Inr False) \<and>
   (server w Control = Inr s \<and> rx s = Inl e # rest \<longrightarrow> fst (ping cmd w) = Inr False) \<and>
   (server w Control = Inr s \<and> rx s = [] \<longrightarrow> fst (ping cmd w) = Inr False) \<and>
   (server w Control = Inr s \<and> tx_fail s = None \<and> 0 \<le> PING cmd \<and> PING cmd \<le> 255 \<and>
      rx s = Inr (b # bs) # rest \<longrightarrow> fst (ping cmd w) = Inr (b \<noteq> 0))"
proof (intro conjI impI)
  show "\<exists>b. fst (ping cmd w) = Inr b"
    by (auto simp: ping_unfold split: sum.splits prod.splits)
next
  assume "server w Control = Inl e"
  then show "fst (ping cmd w) = Inr False" by (simp add: ping_unfold)
next
  assume a: "server w Control = Inr s \<and> tx_fail s = Some (k, e) \<and> k < 5"
  then obtain e' s' where "send_command (PING cmd) 0 s = (Inl e', s')"
    using send_command_short[of s k e "PING cmd" 0] by blast
  then show "fst (ping cmd w) = Inr False" using a by (simp add: ping_unfold)
next
  assume a: "server w Control = Inr s \<and> rx s = Inl e # rest"
  obtain r s1 where sc: "send_command (PING cmd) 0 s = (r, s1)" by (cases "send_command (PING cmd) 0 s")
  have "rx s1 = Inl e # rest" using send_command_rx[OF sc] a by simp
  from recv_bool_error[OF this] show "fst (ping cmd w) = Inr False"
    using a sc by (cases "recv_bool s1") (simp add: ping_unfold split: sum.splits)
next
  assume a: "server w Control = Inr s \<and> rx s = []"
  obtain r s1 where sc: "send_command (PING cmd) 0 s = (r, s1)" by (cases "send_command (PING cmd) 0 s")
  have "rx s1 = []" using send_command_rx[OF sc] a by simp
  from recv_bool_closed[OF this] show "fst (ping cmd w) = Inr False"
    using a sc by (cases "recv_bool s1") (simp add: ping_unfold split: sum.splits)
next
  assume a: "server w Control = Inr s \<and> tx_fail s = None \<and> 0 \<le> PING cmd \<and> PING cmd \<le> 255 \<and>
      rx s = Inr (b # bs) # rest"
  then obtain header where h: "send_command (PING cmd) 0 s = (Inr (), s\<lparr>tx := tx s @ header\<rparr>)"
    using send_command_open[of "PING cmd" 0 s] by auto
  have "rx (s\<lparr>tx := tx s @ header\<rparr>) = Inr (b # bs) # rest" using a by simp
  from recv_bool_byte[OF this] show "fst (ping cmd w) = Inr (b \<noteq> 0)"
    using a h by (cases "recv_bool (s\<lparr>tx := tx s @ header\<rparr>)") (simp add: ping_unfold)
qed

theorem ping_never_raises_witness:
  "fst (ping codes offline) = Inr False \<and>
   fst (ping codes (offline\<lparr>server := \<lambda>c. Inr (peer [Inl TimeoutError])\<rparr>)) = Inr False \<and>
   fst (ping codes (offline\<lparr>server := \<lambda>c. Inr (peer [])\<rparr>)) = Inr False \<and>
   fst (ping codes (offline\<lparr>server := \<lambda>c. Inr ((peer [Inr [1]])\<lparr>tx_fail := Some (3, BrokenPipeError)\<rparr>)\<rparr>)) = Inr False \<and>
   fst (ping codes (offline\<lparr>server := \<lambda>c. Inr (peer [Inr [1]])\<rparr>)) = Inr True \<and>
   fst (ping codes (offline\<lparr>server := \<lambda>c. Inr (peer [Inr [0]])\<rparr>)) = Inr False"
  using ping_never_raises[of codes offline ConnectionRefusedError]
        ping_never_raises[of codes "offline\<lparr>server := \<lambda>c. Inr (peer [Inl TimeoutError])\<rparr>"
           TimeoutError "peer [Inl TimeoutError]" _ "[]"]
        ping_never_raises[of codes "offline\<lparr>server := \<lambda>c. Inr (peer [])\<rparr>" _ "peer []"]
        ping_never_raises[of codes
           "offline\<lparr>server := \<lambda>c. Inr ((peer [Inr [1]])\<lparr>tx_fail := Some (3, BrokenPipeError)\<rparr>)\<rparr>"
           BrokenPipeError "(peer [Inr [1]])\<lparr>tx_fail := Some (3, BrokenPipeError)\<rparr>" 3]
        ping_never_raises[of codes "offline\<lparr>server := \<lambda>c. Inr (peer [Inr [1]])\<rparr>" _
           "peer [Inr [1]]" _ "[]" 1 "[]"]
        ping_never_raises[of codes "offline\<lparr>server := \<lambda>c. Inr (peer [Inr [0]])\<rparr>" _
           "peer [Inr [0]]" _ "[]" 0 "[]"]
  by (simp add: offline_def peer_def codes_def)

section \<open>Properties of \<open>upload_file\<close> and of the handlers\<close>

lemma upload_file_exists:
  assumes srv: "server w Control = Inr s" and tx: "tx_fail s = None"
    and code: "0 \<le> REQUEST_UPLOAD cmd" "REQUEST_UPLOAD cmd \<le> 255"
    and name: "int (length (encode (basename path))) < 2 ^ 32"
    and ans: "rx s = Inr (b # bs) # rest" "b \<noteq> 0"
  shows "\<exists>header. pack_BI (REQUEST_UPLOAD cmd) (int (length (encode (basename path)))) = Inr header \<and>
           upload_file cmd path chunk_count w =
             (Inr (),
              w\<lparr>closed_conns := closed_conns w @ [(Control, tx s @ header @ encode (basename path))],
                stdout := stdout w @ [ErrorLine ''[FILE UPLOAD ERROR]:''
                            (FileExistsError ''File has already existed on the server'')]\<rparr>)"
proof -
  let ?n = "int (length (encode (basename path)))"
  obtain header where h: "pack_BI (REQUEST_UPLOAD cmd) ?n = Inr header"
      and sc: "send_command (REQUEST_UPLOAD cmd) ?n s = (Inr (), s\<lparr>tx := tx s @ header\<rparr>)"
    using send_command_open[OF code _ name tx] by auto
  let ?s1 = "s\<lparr>tx := tx s @ header\<rparr>"
  let ?s2 = "s\<lparr>tx := tx s @ header @ encode (basename path)\<rparr>"
  have sa: "sendall (encode (basename path)) ?s1 = (Inr (), ?s2)"
    using tx by (simp add: sendall_open)
  have rb: "recv_bool ?s2 = (Inr True, ?s2\<lparr>rx := (if bs = [] then rest else Inr bs # rest)\<rparr>)"
    using recv_bool_first[of ?s2 b bs rest] ans by simp
  have "upload_file cmd path chunk_count w =
             (Inr (),
              w\<lparr>closed_conns := closed_conns w @ [(Control, tx s @ header @ encode (basename path))],
                stdout := stdout w @ [ErrorLine ''[FILE UPLOAD ERROR]:''
                            (FileExistsError ''File has already existed on the server'')]\<rparr>)"
    unfolding upload_file_def upload_file_body_def try_except_def with_socket_def Let_def
    by (simp add: srv seq_on_sock sc sa rb raise_def print_def)
  with h show ?thesis by blast
qed

lemma download_file_no_directory:
  assumes "\<not> path_exists destination w"
  shows "download_file cmd file_name destination chunk_count w =
           (Inr (), w\<lparr>stdout := stdout w @ [ErrorLine ''[FILE DOWNLOAD ERROR]''
                          (FileNotFoundError ''Destination folder does not exist'')]\<rparr>)"
  using assms by (simp add: download_file_def download_file_body_def try_except_def seq_def print_def)

text \<open>
  Claim C8. When the server answers true to \<open>REQUEST_UPLOAD\<close>, \<open>upload_file\<close> fails with
  \<open>FileExistsError\<close>, which it reports, and stops there: no thread is started, no signal
  is sent, no file is touched, and the only connection it has used is the control
  connection, on which nothing but the request header and the file name was sent.
\<close>

theorem upload_file_collision_aborts:
  assumes "server w Control = Inr s" and "tx_fail s = None"
    and "0 \<le> REQUEST_UPLOAD cmd" and "REQUEST_UPLOAD cmd \<le> 255"
    and "int (length (encode (basename path))) < 2 ^ 32"
    and "rx s = Inr (b # bs) # rest" and "b \<noteq> 0"
  shows "fst (upload_file cmd path chunk_count w) = Inr () \<and>
         stdout (snd (upload_file cmd path chunk_count w))
           = stdout w @ [ErrorLine ''[FILE UPLOAD ERROR]:''
                           (FileExistsError ''File has already existed on the server'')] \<and>
         threads (snd (upload_file cmd path chunk_count w)) = threads w \<and>
         signals (snd (upload_file cmd path chunk_count w)) = signals w \<and>
         entries (snd (upload_file cmd path chunk_count w)) = entries w \<and>
         (\<exists>header. pack_BI (REQUEST_UPLOAD cmd) (int (length (encode (basename path)))) = Inr header \<and>
            closed_conns (snd (upload_file cmd path chunk_count w))
              = closed_conns w @ [(Control, tx s @ header @ encode (basename path))])"
proof -
  from upload_file_exists[OF assms, of chunk_count]
  obtain header where h: "pack_BI (REQUEST_UPLOAD cmd) (int (length (encode (basename path)))) = Inr header"
    and u: "upload_file cmd path chunk_count w =
             (Inr (),
              w\<lparr>closed_conns := closed_conns w @ [(Control, tx s @ header @ encode (basename path))],
                stdout := stdout w @ [ErrorLine ''[FILE UPLOAD ERROR]:''
                            (FileExistsError ''File has already existed on the server'')]\<rparr>)"
    by blast
  show ?thesis unfolding u using h by simp
qed

theorem upload_file_collision_aborts_witness:
  "fst (upload_file codes ''docs/report.txt'' 4 colliding) = Inr () \<and>
   stdout (snd (upload_file codes ''docs/report.txt'' 4 colliding))
     = [ErrorLine ''[FILE UPLOAD ERROR]:'' (FileExistsError ''File has already existed on the server'')] \<and>
   threads (snd (upload_file codes ''docs/report.txt'' 4 colliding)) = [] \<and>
   signals (snd (upload_file codes ''docs/report.txt'' 4 colliding)) = [] \<and>
   map fst (closed_conns (snd (upload_file codes ''docs/report.txt'' 4 colliding))) = [Control]"
  using upload_file_collision_aborts[of colliding "peer [Inr [1]]" codes "''docs/report.txt''" 1 "[]" "[]" 4]
  by (auto simp: colliding_def offline_def peer_def codes_def basename_def encode_def utf8_def)

text \<open>
  Claim C7 says that the two precondition failures, a remote file that already exists
  on upload and a destination directory that is missing on download, are raised to the
  caller. They are not: each is raised inside the \<open>try\<close> block of its operation and is
  caught there, as the runs below show.
\<close>

theorem preconditions_raised_counterexample:
  "fst (upload_file codes ''docs/report.txt'' 4 colliding) = Inr () \<and>
   stdout (snd (upload_file codes ''docs/report.txt'' 4 colliding))
     = [ErrorLine ''[FILE UPLOAD ERROR]:'' (FileExistsError ''File has already existed on the server'')] \<and>
   fst (download_file codes ''report.txt'' ''client_data'' 4 offline) = Inr () \<and>
   stdout (snd (download_file codes ''report.txt'' ''client_data'' 4 offline))
     = [ErrorLine ''[FILE DOWNLOAD ERROR]'' (FileNotFoundError ''Destination folder does not exist'')]"
proof -
  have a: "\<not> path_exists ''client_data'' offline" by (simp add: path_exists_def offline_def)
  have b: "server colliding Control = Inr (peer [Inr [1]])" "tx_fail (peer [Inr [1]]) = None"
    "0 \<le> REQUEST_UPLOAD codes" "REQUEST_UPLOAD codes \<le> 255"
    "int (length (encode (basename ''docs/report.txt''))) < 2 ^ 32"
    "rx (peer [Inr [1]]) = Inr (1 # []) # []" "(1::byte) \<noteq> 0"
    by (simp_all add: colliding_def offline_def peer_def codes_def basename_def encode_def utf8_def)
  from upload_file_exists[OF b, of 4] download_file_no_directory[OF a, of codes "''report.txt''" 4]
  show ?thesis by (auto simp: offline_def colliding_def)
qed

text \<open>
  Claim C7, amended. No failure is raised to the caller of \<open>upload_file\<close>,
  \<open>download_file\<close> or of a chunk worker: whatever exception the block under \<open>try\<close>
  raises, the two precondition failures included, the operation returns normally and
  has printed its error line with that exception after what the block has done. So a
  refused control or chunk connection is reported with the exception of \<open>connect\<close>. A
  missing destination directory is reported before any connection is opened, and an
  existing remote file before any thread is started.
\<close>

theorem failures_reported_not_raised:
  "upload_file cmd path chunk_count w =
     (case upload_file_body cmd path chunk_count w of
        (Inl e, w') \<Rightarrow> (Inr (), w'\<lparr>stdout := stdout w' @ [ErrorLine ''[FILE UPLOAD ERROR]:'' e]\<rparr>)
      | (Inr u, w') \<Rightarrow> (Inr (), w')) \<and>
   download_file cmd file_name destination chunk_count w =
     (case download_file_body cmd file_name destination chunk_count w of
        (Inl e, w') \<Rightarrow> (Inr (), w'\<lparr>stdout := stdout w' @ [ErrorLine ''[FILE DOWNLOAD ERROR]'' e]\<rparr>)
      | (Inr u, w') \<Rightarrow> (Inr (), w')) \<and>
   upload_chunk cmd path start_byte end_byte chunk_number w =
     (case upload_chunk_body cmd path start_byte end_byte chunk_number w of
        (Inl e, w') \<Rightarrow> (Inr (), w'\<lparr>stdout := stdout w' @ [ErrorLine ''[CHUNK UPLOAD ERROR]'' e]\<rparr>)
      | (Inr u, w') \<Rightarrow> (Inr (), w')) \<and>
   download_chunk cmd file_name destination start_byte end_byte chunk_number w =
     (case download_chunk_body cmd file_name destination start_byte end_byte chunk_number w of
        (Inl e, w') \<Rightarrow> (Inr (), w'\<lparr>stdout := stdout w' @ [ErrorLine ''[CHUNK DOWNLOAD ERROR]'' e]\<rparr>)
      | (Inr u, w') \<Rightarrow> (Inr (), w')) \<and>
   fst (upload_file cmd path chunk_count w) = Inr () \<and>
   fst (download_file cmd file_name destination chunk_count w) = Inr () \<and>
   fst (upload_chunk cmd path start_byte end_byte chunk_number w) = Inr () \<and>
   fst (download_chunk cmd file_name destination start_byte end_byte chunk_number w) = Inr () \<and>
   (server w Control = Inl e \<longrightarrow>
      upload_file cmd path chunk_count w =
        (Inr (), w\<lparr>stdout := stdout w @ [ErrorLine ''[FILE UPLOAD ERROR]:'' e]\<rparr>)) \<and>
   (path_exists destination w \<and> server w Control = Inl e \<longrightarrow>
      download_file cmd file_name destination chunk_count w =
        (Inr (), w\<lparr>stdout := stdout w @ [ErrorLine ''[FILE DOWNLOAD ERROR]'' e]\<rparr>)) \<and>
   (server w (Chunk chunk_number) = Inl e \<longrightarrow>
      upload_chunk cmd path start_byte end_byte chunk_number w =
        (Inr (), w\<lparr>stdout := stdout w @ [ErrorLine ''[CHUNK UPLOAD ERROR]'' e]\<rparr>)) \<and>
   (server w (Chunk chunk_number) = Inl e \<longrightarrow>
      download_chunk cmd file_name destination start_byte end_byte chunk_number w =
        (Inr (), w\<lparr>stdout := stdout w @ [ErrorLine ''[CHUNK DOWNLOAD ERROR]'' e]\<rparr>)) \<and>
   (\<not> path_exists destination w \<longrightarrow>
      download_file cmd file_name destination chunk_count w =
        (Inr (), w\<lparr>stdout := stdout w @ [ErrorLine ''[FILE DOWNLOAD ERROR]''
                       (FileNotFoundError ''Destination folder does not exist'')]\<rparr>)) \<and>
   (server w Control = Inr s \<and> tx_fail s = None \<and> 0 \<le> REQUEST_UPLOAD cmd \<and>
    REQUEST_UPLOAD cmd \<le> 255 \<and> int (length (encode (basename path))) < 2 ^ 32 \<and>
    rx s = Inr (b # bs) # rest \<and> b \<noteq> 0 \<longrightarrow>
      stdout (snd (upload_file cmd path chunk_count w))
        = stdout w @ [ErrorLine ''[FILE UPLOAD ERROR]:''
                        (FileExistsError ''File has already existed on the server'')] \<and>
      threads (snd (upload_file cmd path chunk_count w)) = threads w)"
proof (intro conjI impI)
  show "upload_file cmd path chunk_count w =
     (case upload_file_body cmd path chunk_count w of
        (Inl e, w') \<Rightarrow> (Inr (), w'\<lparr>stdout := stdout w' @ [ErrorLine ''[FILE UPLOAD ERROR]:'' e]\<rparr>)
      | (Inr u, w') \<Rightarrow> (Inr (), w'))"
    unfolding upload_file_def by (rule try_print_run)
  show "download_file cmd file_name destination chunk_count w =
     (case download_file_body cmd file_name destination chunk_count w of
        (Inl e, w') \<Rightarrow> (Inr (), w'\<lparr>stdout := stdout w' @ [ErrorLine ''[FILE DOWNLOAD ERROR]'' e]\<rparr>)
      | (Inr u, w') \<Rightarrow> (Inr (), w'))"
    unfolding download_file_def by (rule try_print_run)
  show "upload_chunk cmd path start_byte end_byte chunk_number w =
     (case upload_chunk_body cmd path start_byte end_byte chunk_number w of
        (Inl e, w') \<Rightarrow> (Inr (), w'\<lparr>stdout := stdout w' @ [ErrorLine ''[CHUNK UPLOAD ERROR]'' e]\<rparr>)
      | (Inr u, w') \<Rightarrow> (Inr (), w'))"
    unfolding upload_chunk_def by (rule try_print_run)
  show "download_chunk cmd file_name destination start_byte end_byte chunk_number w =
     (case download_chunk_body cmd file_name destination start_byte end_byte chunk_number w of
        (Inl e, w') \<Rightarrow> (Inr (), w'\<lparr>stdout := stdout w' @ [ErrorLine ''[CHUNK DOWNLOAD ERROR]'' e]\<rparr>)
      | (Inr u, w') \<Rightarrow> (Inr (), w'))"
    unfolding download_chunk_def by (rule try_print_run)
  show "fst (upload_file cmd path chunk_count w) = Inr ()"
    unfolding upload_file_def by (rule try_print_returns)
  show "fst (download_file cmd file_name destination chunk_count w) = Inr ()"
    unfolding download_file_def by (rule try_print_returns)
  show "fst (upload_chunk cmd path start_byte end_byte chunk_number w) = Inr ()"
    unfolding upload_chunk_def by (rule try_print_returns)
  show "fst (download_chunk cmd file_name destination start_byte end_byte chunk_number w) = Inr ()"
    unfolding download_chunk_def by (rule try_print_returns)
next
  assume "server w Control = Inl e"
  then show "upload_file cmd path chunk_count w =
        (Inr (), w\<lparr>stdout := stdout w @ [ErrorLine ''[FILE UPLOAD ERROR]:'' e]\<rparr>)"
    by (simp add: upload_file_def upload_file_body_def try_print_run with_socket_refused)
next
  assume "path_exists destination w \<and> server w Control = Inl e"
  then show "download_file cmd file_name destination chunk_count w =
        (Inr (), w\<lparr>stdout := stdout w @ [ErrorLine ''[FILE DOWNLOAD ERROR]'' e]\<rparr>)"
    by (simp add: download_file_def download_file_body_def try_print_run seq_guard
          with_socket_refused)
next
  assume "server w (Chunk chunk_number) = Inl e"
  then show "upload_chunk cmd path start_byte end_byte chunk_number w =
        (Inr (), w\<lparr>stdout := stdout w @ [ErrorLine ''[CHUNK UPLOAD ERROR]'' e]\<rparr>)"
    by (simp add: upload_chunk_def upload_chunk_body_def try_print_run with_socket_refused)
next
  assume "server w (Chunk chunk_number) = Inl e"
  then show "download_chunk cmd file_name destination start_byte end_byte chunk_number w =
        (Inr (), w\<lparr>stdout := stdout w @ [ErrorLine ''[CHUNK DOWNLOAD ERROR]'' e]\<rparr>)"
    by (simp add: download_chunk_def download_chunk_body_def try_print_run with_socket_refused)
next
  assume "\<not> path_exists destination w"
  then show "download_file cmd file_name destination chunk_count w =
        (Inr (), w\<lparr>stdout := stdout w @ [ErrorLine ''[FILE DOWNLOAD ERROR]''
                       (FileNotFoundError ''Destination folder does not exist'')]\<rparr>)"
    by (rule download_file_no_directory)
next
  assume a: "server w Control = Inr s \<and> tx_fail s = None \<and> 0 \<le> REQUEST_UPLOAD cmd \<and>
    REQUEST_UPLOAD cmd \<le> 255 \<and> int (length (encode (basename path))) < 2 ^ 32 \<and>
    rx s = Inr (b # bs) # rest \<and> b \<noteq> 0"
  then obtain header where u: "upload_file cmd path chunk_count w =
             (Inr (),
              w\<lparr>closed_conns := closed_conns w @ [(Control, tx s @ header @ encode (basename path))],
                stdout := stdout w @ [ErrorLine ''[FILE UPLOAD ERROR]:''
                            (FileExistsError ''File has already existed on the server'')]\<rparr>)"
    using upload_file_exists[of w s cmd path b bs rest chunk_count] by blast
  show "stdout (snd (upload_file cmd path chunk_count w))
        = stdout w @ [ErrorLine ''[FILE UPLOAD ERROR]:''
                        (FileExistsError ''File has already existed on the server'')]"
    unfolding u by simp
  show "threads (snd (upload_file cmd path chunk_count w)) = threads w"
    unfolding u by simp
qed

theorem failures_reported_not_raised_witness:
  "download_file codes ''report.txt'' ''client_data'' 4 offline
     = (Inr (), offline\<lparr>stdout := [ErrorLine ''[FILE DOWNLOAD ERROR]''
                                      (FileNotFoundError ''Destination folder does not exist'')]\<rparr>) \<and>
   (fst (upload_file codes ''docs/report.txt'' 4 colliding) = Inr () \<and>
    stdout (snd (upload_file codes ''docs/report.txt'' 4 colliding))
      = [ErrorLine ''[FILE UPLOAD ERROR]:'' (FileExistsError ''File has already existed on the server'')] \<and>
    threads (snd (upload_file codes ''docs/report.txt'' 4 colliding)) = []) \<and>
   (upload_file codes ''a.bin'' 4 offline
      = (Inr (), offline\<lparr>stdout := [ErrorLine ''[FILE UPLOAD ERROR]:'' ConnectionRefusedError]\<rparr>) \<and>
    upload_chunk codes ''a.bin'' 0 1 0 offline
      = (Inr (), offline\<lparr>stdout := [ErrorLine ''[CHUNK UPLOAD ERROR]'' ConnectionRefusedError]\<rparr>) \<and>
    download_chunk codes ''report.txt'' ''client_data'' 0 1 0 offline
      = (Inr (), offline\<lparr>stdout := [ErrorLine ''[CHUNK DOWNLOAD ERROR]'' ConnectionRefusedError]\<rparr>)) \<and>
   (fst (upload_chunk codes ''missing.bin'' 0 1 0 two_bytes) = Inr () \<and>
    stdout (snd (upload_chunk codes ''missing.bin'' 0 1 0 two_bytes))
      = [ErrorLine ''[CHUNK UPLOAD ERROR]'' (FileNotFoundError ''No such file or directory'')])"
proof (intro conjI)
  note refused = failures_reported_not_raised[where cmd=codes and path="''a.bin''"
      and chunk_count=4 and w=offline and file_name="''report.txt''"
      and destination="''client_data''" and start_byte=0 and end_byte=1 and chunk_number=0
      and e=ConnectionRefusedError and s="peer []" and b=0 and bs="[]" and rest="[]"]
  note collide = failures_reported_not_raised[where cmd=codes and path="''docs/report.txt''"
      and chunk_count=4 and w=colliding and file_name="''report.txt''"
      and destination="''client_data''" and start_byte=0 and end_byte=1 and chunk_number=0
      and e=ConnectionRefusedError and s="peer [Inr [1]]" and b=1 and bs="[]" and rest="[]"]
  note missing = failures_reported_not_raised[where cmd=codes and path="''missing.bin''"
      and chunk_count=4 and w=two_bytes and file_name="''report.txt''"
      and destination="''client_data''" and start_byte=0 and end_byte=1 and chunk_number=0
      and e=ConnectionRefusedError and s="peer []" and b=0 and bs="[]" and rest="[]"]
  have off: "server offline Control = Inl ConnectionRefusedError"
    "server offline (Chunk 0) = Inl ConnectionRefusedError"
    "\<not> path_exists ''client_data'' offline"
    by (simp_all add: offline_def path_exists_def)
  have out: "\<And>ln. offline\<lparr>stdout := stdout offline @ [ln]\<rparr> = offline\<lparr>stdout := [ln]\<rparr>"
    by (simp add: offline_def)
  show "download_file codes ''report.txt'' ''client_data'' 4 offline
     = (Inr (), offline\<lparr>stdout := [ErrorLine ''[FILE DOWNLOAD ERROR]''
                                      (FileNotFoundError ''Destination folder does not exist'')]\<rparr>)"
    using refused[THEN conjunct2, THEN conjunct2, THEN conjunct2, THEN conjunct2, THEN conjunct2, THEN conjunct2, THEN conjunct2, THEN conjunct2, THEN conjunct2, THEN conjunct2, THEN conjunct2, THEN conjunct2, THEN conjunct1, THEN mp, OF off(3)] by (simp only: out)
  show "upload_file codes ''a.bin'' 4 offline
      = (Inr (), offline\<lparr>stdout := [ErrorLine ''[FILE UPLOAD ERROR]:'' ConnectionRefusedError]\<rparr>)"
    using refused[THEN conjunct2, THEN conjunct2, THEN conjunct2, THEN conjunct2, THEN conjunct2, THEN conjunct2, THEN conjunct2, THEN conjunct2, THEN conjunct1, THEN mp, OF off(1)] by (simp only: out)
  show "upload_chunk codes ''a.bin'' 0 1 0 offline
      = (Inr (), offline\<lparr>stdout := [ErrorLine ''[CHUNK UPLOAD ERROR]'' ConnectionRefusedError]\<rparr>)"
    using refused[THEN conjunct2, THEN conjunct2, THEN conjunct2, THEN conjunct2, THEN conjunct2, THEN conjunct2, THEN conjunct2, THEN conjunct2, THEN conjunct2, THEN conjunct2, THEN conjunct1, THEN mp, OF off(2)] by (simp only: out)
  show "download_chunk codes ''report.txt'' ''client_data'' 0 1 0 offline
      = (Inr (), offline\<lparr>stdout := [ErrorLine ''[CHUNK DOWNLOAD ERROR]'' ConnectionRefusedError]\<rparr>)"
    using refused[THEN conjunct2, THEN conjunct2, THEN conjunct2, THEN conjunct2, THEN conjunct2, THEN conjunct2, THEN conjunct2, THEN conjunct2, THEN conjunct2, THEN conjunct2, THEN conjunct2, THEN conjunct1, THEN mp, OF off(2)] by (simp only: out)
  have c: "server colliding Control = Inr (peer [Inr [1]]) \<and> tx_fail (peer [Inr [1]]) = None \<and>
      0 \<le> REQUEST_UPLOAD codes \<and> REQUEST_UPLOAD codes \<le> 255 \<and>
      int (length (encode (basename ''docs/report.txt''))) < 2 ^ 32 \<and>
      rx (peer [Inr [1]]) = Inr (1 # []) # [] \<and> (1::byte) \<noteq> 0"
    by (simp add: colliding_def offline_def peer_def codes_def basename_def encode_def utf8_def)
  have s0: "stdout colliding = []" "threads colliding = []"
    by (simp_all add: colliding_def offline_def)
  show "fst (upload_file codes ''docs/report.txt'' 4 colliding) = Inr ()"
    by (rule collide[THEN conjunct2, THEN conjunct2, THEN conjunct2, THEN conjunct2, THEN conjunct1])
  show "stdout (snd (upload_file codes ''docs/report.txt'' 4 colliding))
      = [ErrorLine ''[FILE UPLOAD ERROR]:'' (FileExistsError ''File has already existed on the server'')]"
    using collide[THEN conjunct2, THEN conjunct2, THEN conjunct2, THEN conjunct2, THEN conjunct2, THEN conjunct2, THEN conjunct2, THEN conjunct2, THEN conjunct2, THEN conjunct2, THEN conjunct2, THEN conjunct2, THEN conjunct2, THEN mp, OF c, THEN conjunct1] by (simp only: s0 append_Nil)
  show "threads (snd (upload_file codes ''docs/report.txt'' 4 colliding)) = []"
    using collide[THEN conjunct2, THEN conjunct2, THEN conjunct2, THEN conjunct2, THEN conjunct2, THEN conjunct2, THEN conjunct2, THEN conjunct2, THEN conjunct2, THEN conjunct2, THEN conjunct2, THEN conjunct2, THEN conjunct2, THEN mp, OF c, THEN conjunct2] by (simp only: s0)
  show "fst (upload_chunk codes ''missing.bin'' 0 1 0 two_bytes) = Inr ()"
    by (rule missing[THEN conjunct2, THEN conjunct2, THEN conjunct2, THEN conjunct2, THEN conjunct2, THEN conjunct2, THEN conjunct1])
  have io: "upload_chunk_body codes ''missing.bin'' 0 1 0 two_bytes
      = (Inl (FileNotFoundError ''No such file or directory''),
         two_bytes\<lparr>closed_conns := [(Chunk 0, [3, 0, 0, 0, 11] @ encode ''missing.bin''
                                          @ [0, 0, 0, 0] @ [0, 0, 0, 1])]\<rparr>)"
    by (simp add: upload_chunk_body_def two_bytes_def run_simps)
  show "stdout (snd (upload_chunk codes ''missing.bin'' 0 1 0 two_bytes))
      = [ErrorLine ''[CHUNK UPLOAD ERROR]'' (FileNotFoundError ''No such file or directory'')]"
    unfolding missing[THEN conjunct2, THEN conjunct2, THEN conjunct1] io by (simp add: two_bytes_def offline_def)
qed

section \<open>Empty files and empty chunks\<close>

text \<open>
  Claim C4 asks that a download of a file of size 0 creates the empty destination file
  and completes without a negative seek offset. In the code \<open>open(path, 'wb')\<close> creates
  the empty file, but the preallocation then calls \<open>file.seek(file_size - 1)\<close>, that is
  \<open>seek(-1)\<close>, which raises; the operation reports a download error and starts no
  worker.
\<close>

theorem download_file_size_zero:
  "seek \<lparr>fpath = ''client_data/empty.txt'', fpos = 0\<rparr> (0 - 1) = Inl OSError \<and>
   fst (download_file codes ''empty.txt'' ''client_data'' 4 empty_remote) = Inr () \<and>
   stdout (snd (download_file codes ''empty.txt'' ''client_data'' 4 empty_remote))
     = [ErrorLine ''[FILE DOWNLOAD ERROR]'' OSError] \<and>
   entries (snd (download_file codes ''empty.txt'' ''client_data'' 4 empty_remote))
     ''client_data/empty.txt'' = Some (File []) \<and>
   threads (snd (download_file codes ''empty.txt'' ''client_data'' 4 empty_remote)) = []"
  by (simp add: download_file_def download_file_body_def empty_remote_def run_simps)

lemma upto_0_3: "[0..3::int] = [0, 1, 2, 3]"
  by (simp add: upto.simps)

text \<open>
  Claim C3 asks that a chunk whose range has its start after its end be treated as a
  chunk of length zero instead of failing. In the code such a chunk has the end offset
  \<open>-1\<close>, which \<open>send_int\<close> cannot pack as an unsigned integer: the worker has by then
  opened its connection and sent the header, the name and the start offset, and it
  ends in its error handler without the completion signal. For a file of 2 bytes and
  the default of 4 chunks this happens to the first three workers.
\<close>

theorem empty_chunk_worker_fails:
  "chunk_ranges 2 4 = Inr [(0, -1), (0, -1), (0, -1), (0, 1)] \<and>
   upload_chunk codes ''a.bin'' 0 (- 1) 0 two_bytes
     = (Inr (), two_bytes\<lparr>closed_conns := [(Chunk 0, [3, 0, 0, 0, 5] @ encode ''a.bin'' @ [0, 0, 0, 0])],
                           stdout := [ErrorLine ''[CHUNK UPLOAD ERROR]'' StructError]\<rparr>) \<and>
   download_chunk codes ''a.bin'' ''client_data'' 0 (- 1) 0 two_bytes
     = (Inr (), two_bytes\<lparr>closed_conns := [(Chunk 0, [5, 0, 0, 0, 5] @ encode ''a.bin'' @ [0, 0, 0, 0])],
                           stdout := [ErrorLine ''[CHUNK DOWNLOAD ERROR]'' StructError]\<rparr>) \<and>
   threads (snd (upload_file codes ''a.bin'' 4 two_bytes))
     = [(0, -1, 0), (0, -1, 1), (0, -1, 2), (0, 1, 3)] \<and>
   stdout (snd (upload_file codes ''a.bin'' 4 two_bytes))
     = [ErrorLine ''[CHUNK UPLOAD ERROR]'' StructError,
        ErrorLine ''[CHUNK UPLOAD ERROR]'' StructError,
        ErrorLine ''[CHUNK UPLOAD ERROR]'' StructError,
        ChunkLine ''uploaded'' 3 0 1] \<and>
   signals (snd (upload_file codes ''a.bin'' 4 two_bytes)) = [(''chunk_uploaded'', 3)]"
proof -
  have 1: "chunk_ranges 2 4 = Inr [(0, -1), (0, -1), (0, -1), (0, 1)]"
    by (simp add: chunk_ranges_def floordiv_def chunk_bounds_def Let_def upto_0_3)
  have 2: "upload_chunk codes ''a.bin'' 0 (- 1) 0 two_bytes
     = (Inr (), two_bytes\<lparr>closed_conns := [(Chunk 0, [3, 0, 0, 0, 5] @ encode ''a.bin'' @ [0, 0, 0, 0])],
                           stdout := [ErrorLine ''[CHUNK UPLOAD ERROR]'' StructError]\<rparr>)"
    by (simp add: upload_chunk_def upload_chunk_body_def two_bytes_def run_simps)
  have 3: "download_chunk codes ''a.bin'' ''client_data'' 0 (- 1) 0 two_bytes
     = (Inr (), two_bytes\<lparr>closed_conns := [(Chunk 0, [5, 0, 0, 0, 5] @ encode ''a.bin'' @ [0, 0, 0, 0])],
                           stdout := [ErrorLine ''[CHUNK DOWNLOAD ERROR]'' StructError]\<rparr>)"
    by (simp add: download_chunk_def download_chunk_body_def two_bytes_def run_simps)
  have 4: "threads (snd (upload_file codes ''a.bin'' 4 two_bytes))
     = [(0, -1, 0), (0, -1, 1), (0, -1, 2), (0, 1, 3)]"
    by (simp add: upload_file_def upload_file_body_def upload_chunk_def upload_chunk_body_def two_bytes_def upto_0_3 run_simps)
  have 5: "stdout (snd (upload_file codes ''a.bin'' 4 two_bytes))
     = [ErrorLine ''[CHUNK UPLOAD ERROR]'' StructError,
        ErrorLine ''[CHUNK UPLOAD ERROR]'' StructError,
        ErrorLine ''[CHUNK UPLOAD ERROR]'' StructError,
        ChunkLine ''uploaded'' 3 0 1]"
    by (simp add: upload_file_def upload_file_body_def upload_chunk_def upload_chunk_body_def two_bytes_def upto_0_3 run_simps)
  have 6: "signals (snd (upload_file codes ''a.bin'' 4 two_bytes)) = [(''chunk_uploaded'', 3)]"
    by (simp add: upload_file_def upload_file_body_def upload_chunk_def upload_chunk_body_def two_bytes_def upto_0_3 run_simps)
  show ?thesis by (rule conjI[OF 1 conjI[OF 2 conjI[OF 3 conjI[OF 4 conjI[OF 5 6]]]]])
qed

section \<open>Properties of \<open>download_file\<close>\<close>



lemma quiet_step_same:
  "signals w' = signals w \<Longrightarrow> entries w' = entries w \<Longrightarrow> quiet_step w w'"
  by (simp add: quiet_step_def)

lemma open_file_read_only:
  "m \<noteq> WB \<Longrightarrow> snd (open_file p m w) = w"
  by (simp add: open_file_def split: option.splits entry.splits)




lemma recv_five:
  "rx s = Inr (f # a # b # c # d # others) # rest \<Longrightarrow>
     recv 5 s = (Inr [f, a, b, c, d], s\<lparr>rx := (if others = [] then rest else Inr others # rest)\<rparr>)"
  by (simp add: recv_def numeral_eq_Suc)


lemma prealloc:
  "0 < n \<Longrightarrow> write_at [] (nat (n - 1)) [0] = replicate (nat n) 0"
proof -
  assume "0 < n"
  then have "nat n = Suc (nat (n - 1))" by simp
  then show ?thesis by (simp add: write_at_def replicate_append_same)
qed





section \<open>The threads started are the planned chunks\<close>

text \<open>
  After a successful negotiation the arguments of the threads that \<open>upload_file\<close> and
  \<open>download_file\<close> start are the ranges of \<open>chunk_ranges\<close>, in order, numbered from 0.
\<close>

lemma thread_loop:
  assumes t: "\<And>a b i w. threads (snd (t a b i w)) = threads w"
  shows "\<exists>w'. for_each xs (\<lambda>i. case cb i of (start_byte, end_byte) \<Rightarrow>
             on_world (thread_start (start_byte, end_byte, i) (t start_byte end_byte i))) (s, w)
           = (Inr (), (s, w')) \<and>
           threads w' = threads w @ map (\<lambda>i. (fst (cb i), snd (cb i), i)) xs"
proof (induction xs arbitrary: w)
  case Nil
  show ?case by (simp add: returns_def)
next
  case (Cons i xs)
  obtain a b where cb: "cb i = (a, b)" by (cases "cb i")
  let ?w1 = "snd (t a b i (w\<lparr>threads := threads w @ [(a, b, i)]\<rparr>))"
  have t1: "threads ?w1 = threads w @ [(a, b, i)]" by (simp add: t)
  from Cons.IH[of ?w1] obtain w' where
    l: "for_each xs (\<lambda>i. case cb i of (start_byte, end_byte) \<Rightarrow>
             on_world (thread_start (start_byte, end_byte, i) (t start_byte end_byte i))) (s, ?w1)
           = (Inr (), (s, w'))"
    and tw: "threads w' = threads ?w1 @ map (\<lambda>i. (fst (cb i), snd (cb i), i)) xs" by blast
  have step: "(case cb i of (start_byte, end_byte) \<Rightarrow>
             on_world (thread_start (start_byte, end_byte, i) (t start_byte end_byte i))) (s, w)
           = (Inr (), (s, ?w1))"
    by (simp add: cb on_world_def thread_start_def)
  have "for_each (i # xs) (\<lambda>i. case cb i of (start_byte, end_byte) \<Rightarrow>
             on_world (thread_start (start_byte, end_byte, i) (t start_byte end_byte i))) (s, w)
           = (Inr (), (s, w'))"
    by (simp only: for_each.simps seq_def step l prod.case sum.case)
  moreover have "threads w' = threads w @ map (\<lambda>i. (fst (cb i), snd (cb i), i)) (i # xs)"
    unfolding tw t1 by (simp add: cb)
  ultimately show ?case by blast
qed

lemma download_chunk_threads:
  "threads (snd (download_chunk cmd file_name destination start_byte end_byte chunk_number w))
     = threads w"
proof (cases "server w (Chunk chunk_number)")
  case (Inl e)
  then show ?thesis
    by (simp add: download_chunk_def download_chunk_body_def try_except_def with_socket_def print_def)
next
  case (Inr s)
  let ?body = "(seq (on_sock (send_command (DOWNLOAD_CHUNK cmd) (int (length file_name)))) (\<lambda>_.
      seq (on_sock (sendall (encode file_name))) (\<lambda>_.
      seq (on_sock (send_int start_byte)) (\<lambda>_.
      seq (on_sock (send_int end_byte)) (\<lambda>_.
      let path = join destination file_name in
      seq (on_world (open_file path RPlusB)) (\<lambda>file.
      seq (lift (seek file start_byte)) (\<lambda>file.
      seq (on_sock (recv_all (end_byte - start_byte + 1))) (\<lambda>data.
      seq (on_world (file_write file data)) (\<lambda>_.
      seq (on_world (signal_send ''chunk_downloaded'' chunk_number)) (\<lambda>_.
      on_world (print (ChunkLine ''downloaded'' chunk_number start_byte end_byte))))))))))))"
  obtain r s' w' where b: "?body (s, w) = (r, (s', w'))" by (metis prod.exhaust)
  have o': "\<And>p r w'. open_file p RPlusB w = (r, w') \<Longrightarrow> w' = w"
    using open_file_read_only[of RPlusB _ w] by (metis mode.distinct(5) snd_conv)
  have "threads (snd (snd (?body (s, w)))) = threads w"
    by (auto simp: seq_on_sock seq_on_world seq_lift on_world_run Let_def
          file_write_def signal_send_def print_def
        split: sum.splits prod.splits option.splits entry.splits dest!: o')
  then have q: "threads w' = threads w" unfolding b by simp
  have "snd (download_chunk cmd file_name destination start_byte end_byte chunk_number w)
          = (case r of Inl e \<Rightarrow> w'\<lparr>closed_conns := closed_conns w' @ [(Chunk chunk_number, tx s')],
                                    stdout := stdout w' @ [ErrorLine ''[CHUNK DOWNLOAD ERROR]'' e]\<rparr>
                     | Inr u \<Rightarrow> w'\<lparr>closed_conns := closed_conns w' @ [(Chunk chunk_number, tx s')]\<rparr>)"
    unfolding download_chunk_def download_chunk_body_def
    by (rule with_socket_try[where body="?body" and s=s and r=r and s'=s' and w'=w', OF Inr b])
  then show ?thesis using q by (auto split: sum.splits)
qed

lemma upload_chunk_threads:
  "threads (snd (upload_chunk cmd path start_byte end_byte chunk_number w)) = threads w"
proof (cases "server w (Chunk chunk_number)")
  case (Inl e)
  then show ?thesis
    by (simp add: upload_chunk_def upload_chunk_body_def try_except_def with_socket_def print_def)
next
  case (Inr s)
  let ?body = "(let file_name = encode (basename path) in
           seq (on_sock (send_command (UPLOAD_CHUNK cmd) (int (length file_name)))) (\<lambda>_.
           seq (on_sock (sendall file_name)) (\<lambda>_.
           seq (on_sock (send_int start_byte)) (\<lambda>_.
           seq (on_sock (send_int end_byte)) (\<lambda>_.
           seq (on_world (open_file path RB)) (\<lambda>file.
           seq (lift (seek file start_byte)) (\<lambda>file.
           seq (on_world (file_read file (end_byte - start_byte + 1))) (\<lambda>data.
           seq (on_sock (sendall data)) (\<lambda>_.
           seq (on_world (signal_send ''chunk_uploaded'' chunk_number)) (\<lambda>_.
           on_world (print (ChunkLine ''uploaded'' chunk_number start_byte end_byte))))))))))))"
  obtain r s' w' where b: "?body (s, w) = (r, (s', w'))" by (metis prod.exhaust)
  have o': "\<And>p r w'. open_file p RB w = (r, w') \<Longrightarrow> w' = w"
    using open_file_read_only[of RB _ w] by (metis mode.distinct(1) snd_conv)
  have "threads (snd (snd (?body (s, w)))) = threads w"
    by (auto simp: seq_on_sock seq_on_world seq_lift on_world_run Let_def
          file_read_def signal_send_def print_def
        split: sum.splits prod.splits option.splits entry.splits dest!: o')
  then have q: "threads w' = threads w" unfolding b by simp
  have "snd (upload_chunk cmd path start_byte end_byte chunk_number w)
          = (case r of Inl e \<Rightarrow> w'\<lparr>closed_conns := closed_conns w' @ [(Chunk chunk_number, tx s')],
                                    stdout := stdout w' @ [ErrorLine ''[CHUNK UPLOAD ERROR]'' e]\<rparr>
                     | Inr u \<Rightarrow> w'\<lparr>closed_conns := closed_conns w' @ [(Chunk chunk_number, tx s')]\<rparr>)"
    unfolding upload_chunk_def upload_chunk_body_def
    by (rule with_socket_try[where body="?body" and s=s and r=r and s'=s' and w'=w', OF Inr b])
  then show ?thesis using q by (auto split: sum.splits)
qed

lemma send_int_open:
  assumes "0 \<le> v" "v < 2 ^ 32" "tx_fail s = None"
  shows "\<exists>buf. send_int v s = (Inr (), s\<lparr>tx := tx s @ buf\<rparr>)"
proof -
  obtain buf where "pack_I v = Inr buf" using pack_I_roundtrip[OF assms(1,2)] by blast
  then have "send_int v s = (Inr (), s\<lparr>tx := tx s @ buf\<rparr>)"
    using assms(3) by (simp add: send_int_def seq_lift_Inr sendall_open)
  then show ?thesis by (rule exI)
qed

lemma plan_of_threads:
  assumes "n \<noteq> 0"
    and "ts' = ts @ map (\<lambda>i. (fst (chunk_bounds sz n (sz div n) i),
                               snd (chunk_bounds sz n (sz div n) i), i)) [0..n - 1]"
  shows "\<exists>rs. chunk_ranges sz n = Inr rs \<and>
           map (\<lambda>(a, b, i). (a, b)) ts' = map (\<lambda>(a, b, i). (a, b)) ts @ rs \<and>
           map (\<lambda>(a, b, i). i) ts' = map (\<lambda>(a, b, i). i) ts @ [0..n - 1]"
  using assms by (simp add: chunk_ranges_Inr o_def)

lemma upload_file_plan:
  assumes srv: "server w Control = Inr s" "tx_fail s = None"
    and code: "0 \<le> REQUEST_UPLOAD cmd" "REQUEST_UPLOAD cmd \<le> 255"
    and name: "int (length (encode (basename path))) < 2 ^ 32"
    and ans: "rx s = Inr (0 # bs) # rest"
    and fl: "entries w path = Some (File content)" "int (length content) < 2 ^ 32"
    and cc: "chunk_count \<noteq> 0"
  shows "\<exists>rs. chunk_ranges (int (length content)) chunk_count = Inr rs \<and>
           map (\<lambda>(a, b, i). (a, b)) (threads (snd (upload_file cmd path chunk_count w)))
             = map (\<lambda>(a, b, i). (a, b)) (threads w) @ rs \<and>
           map (\<lambda>(a, b, i). i) (threads (snd (upload_file cmd path chunk_count w)))
             = map (\<lambda>(a, b, i). i) (threads w) @ [0..chunk_count - 1]"
proof -
  let ?n = "int (length content)"
  obtain header where
    sc: "send_command (REQUEST_UPLOAD cmd) (int (length (encode (basename path)))) s
           = (Inr (), s\<lparr>tx := tx s @ header\<rparr>)"
    using send_command_open[OF code _ name srv(2)] by auto
  let ?s2 = "s\<lparr>tx := tx s @ header @ encode (basename path)\<rparr>"
  let ?s3 = "?s2\<lparr>rx := (if bs = [] then rest else Inr bs # rest)\<rparr>"
  have sa: "sendall (encode (basename path)) (s\<lparr>tx := tx s @ header\<rparr>) = (Inr (), ?s2)"
    using srv(2) by (simp add: sendall_open)
  have rb: "recv_bool ?s2 = (Inr False, ?s3)"
    using recv_bool_first[of ?s2 0 bs rest] ans by simp
  have gs: "getsize path w = (Inr ?n, w)" using fl(1) by (simp add: getsize_def)
  obtain buf where si: "send_int ?n ?s3 = (Inr (), ?s3\<lparr>tx := tx ?s3 @ buf\<rparr>)"
    using send_int_open[of ?n ?s3] fl(2) srv(2) by auto
  let ?s4 = "?s3\<lparr>tx := tx ?s3 @ buf\<rparr>"
  have fd: "floordiv ?n chunk_count = Inr (?n div chunk_count)"
    using cc by (simp add: floordiv_def)
  obtain w' where
    lp: "for_each [0..chunk_count - 1]
             (\<lambda>i. case chunk_bounds ?n chunk_count (?n div chunk_count) i of
                (start_byte, end_byte) \<Rightarrow>
                  on_world (thread_start (start_byte, end_byte, i)
                    (upload_chunk cmd path start_byte end_byte i))) (?s4, w)
            = (Inr (), (?s4, w'))"
    and th: "threads w' = threads w @ map (\<lambda>i. (fst (chunk_bounds ?n chunk_count (?n div chunk_count) i),
                               snd (chunk_bounds ?n chunk_count (?n div chunk_count) i), i)) [0..chunk_count - 1]"
    using thread_loop[where t="\<lambda>a b i. upload_chunk cmd path a b i" and xs="[0..chunk_count - 1]"
             and cb="chunk_bounds ?n chunk_count (?n div chunk_count)" and s="?s4" and w=w]
          upload_chunk_threads
    by blast
  have "snd (upload_file cmd path chunk_count w)
          = w'\<lparr>closed_conns := closed_conns w' @ [(Control, tx ?s4)]\<rparr>"
    unfolding upload_file_def upload_file_body_def try_except_def with_socket_def Let_def
    using si lp
    by (simp add: srv(1) seq_on_sock seq_on_world seq_lift sc sa rb gs fd)
  then have "threads (snd (upload_file cmd path chunk_count w)) = threads w'" by simp
  with th plan_of_threads[OF cc, of "threads (snd (upload_file cmd path chunk_count w))" "threads w" ?n]
  show ?thesis by simp
qed

lemma download_file_plan:
  assumes dir: "path_exists destination w"
    and srv: "server w Control = Inr s" "tx_fail s = None"
    and code: "0 \<le> REQUEST_DOWNLOAD cmd" "REQUEST_DOWNLOAD cmd \<le> 255"
    and name: "int (length file_name) < 2 ^ 32"
    and ans: "rx s = Inr (f # a # b # c # d # others) # rest" "f \<noteq> 0"
    and pos: "0 < be32 a b c d"
    and cc: "chunk_count \<noteq> 0"
    and free: "entries w (join destination file_name) = None
               \<or> (\<exists>old. entries w (join destination file_name) = Some (File old))"
    and ok: "denied w (join destination file_name) = None"
  shows "\<exists>rs. chunk_ranges (be32 a b c d) chunk_count = Inr rs \<and>
           map (\<lambda>(a, b, i). (a, b))
               (threads (snd (download_file cmd file_name destination chunk_count w)))
             = map (\<lambda>(a, b, i). (a, b)) (threads w) @ rs \<and>
           map (\<lambda>(a, b, i). i)
               (threads (snd (download_file cmd file_name destination chunk_count w)))
             = map (\<lambda>(a, b, i). i) (threads w) @ [0..chunk_count - 1]"
proof -
  let ?n = "be32 a b c d"
  let ?path = "join destination file_name"
  obtain header where
    sc: "send_command (REQUEST_DOWNLOAD cmd) (int (length file_name)) s
           = (Inr (), s\<lparr>tx := tx s @ header\<rparr>)"
    using send_command_open[OF code _ name srv(2)] by auto
  let ?s2 = "s\<lparr>tx := tx s @ header @ encode file_name\<rparr>"
  let ?s3 = "?s2\<lparr>rx := (if others = [] then rest else Inr others # rest)\<rparr>"
  have sa: "sendall (encode file_name) (s\<lparr>tx := tx s @ header\<rparr>) = (Inr (), ?s2)"
    using srv(2) by (simp add: sendall_open)
  have rv: "recv 5 ?s2 = (Inr [f, a, b, c, d], ?s3)"
    using recv_five[of ?s2 f a b c d others rest] ans by simp
  have un: "unpack_bool_I [f, a, b, c, d] = Inr (True, ?n)"
    using ans(2) by (simp add: unpack_bool_I_def)
  have fd: "floordiv ?n chunk_count = Inr (?n div chunk_count)"
    using cc by (simp add: floordiv_def)
  let ?w1 = "w\<lparr>entries := (entries w)(?path \<mapsto> File [])\<rparr>"
  have op: "open_file ?path WB w = (Inr \<lparr>fpath = ?path, fpos = 0\<rparr>, ?w1)"
    using free ok by (auto simp: open_file_def)
  have sk: "seek \<lparr>fpath = ?path, fpos = 0\<rparr> (?n - 1) = Inr \<lparr>fpath = ?path, fpos = ?n - 1\<rparr>"
    using pos by (simp add: seek_def)
  let ?w2 = "w\<lparr>entries := (entries w)(?path \<mapsto> File (replicate (nat ?n) 0))\<rparr>"
  have fw: "file_write \<lparr>fpath = ?path, fpos = ?n - 1\<rparr> [0] ?w1 = (Inr (), ?w2)"
    by (simp add: file_write_def prealloc[OF pos])
  obtain w' where
    lp: "for_each [0..chunk_count - 1]
             (\<lambda>i. case chunk_bounds ?n chunk_count (?n div chunk_count) i of
                (start_byte, end_byte) \<Rightarrow>
                  on_world (thread_start (start_byte, end_byte, i)
                    (download_chunk cmd file_name destination start_byte end_byte i))) (?s3, ?w2)
            = (Inr (), (?s3, w'))"
    and th: "threads w' = threads ?w2 @ map (\<lambda>i. (fst (chunk_bounds ?n chunk_count (?n div chunk_count) i),
                               snd (chunk_bounds ?n chunk_count (?n div chunk_count) i), i)) [0..chunk_count - 1]"
    using thread_loop[where t="\<lambda>a b i. download_chunk cmd file_name destination a b i"
             and xs="[0..chunk_count - 1]"
             and cb="chunk_bounds ?n chunk_count (?n div chunk_count)" and s="?s3" and w="?w2"]
          download_chunk_threads
    by blast
  have "snd (download_file cmd file_name destination chunk_count w)
          = w'\<lparr>closed_conns := closed_conns w' @ [(Control, tx ?s3)]\<rparr>"
    unfolding download_file_def download_file_body_def try_except_def with_socket_def Let_def
    by (simp add: dir srv(1) seq_guard seq_on_sock seq_on_world seq_lift
          sc sa rv un fd op sk fw lp)
  then have "threads (snd (download_file cmd file_name destination chunk_count w)) = threads w'"
    by simp
  with th plan_of_threads[OF cc,
         of "threads (snd (download_file cmd file_name destination chunk_count w))" "threads w" ?n]
  show ?thesis by simp
qed

end
